theory Spec2Isabelle
  imports Complex_Main "HOL-Library.AList"
begin

section \<open>The runtime\<close>

text \<open>
  What lies outside an object: the clock read by \<open>Date.now()\<close> (whole milliseconds), the
  delays handed to \<open>setTimeout\<close> by the \<open>sleep\<close> helpers, the values \<open>Math.random()\<close>
  is going to return, and the state \<open>ext\<close> that the caller's functions act on. Numbers
  that are scaled or multiplied (delays, multipliers, rates) are rationals: the rounding of
  JavaScript's doubles is not modelled.

  A caller's function (\<open>fetchFunction\<close>, \<open>operation\<close>) takes the runtime and returns
  either the value it throws (\<open>Inl\<close>) or its result (\<open>Inr\<close>), with the runtime as it has
  left it; the time it takes shows in the clock. A function that is not invoked leaves no
  trace in the runtime. One call runs to its end before the next one starts.
\<close>

record 'x Runtime =
  clock :: int
  slept :: "rat list"
  randoms :: "rat list"
  ext :: 'x

type_synonym ('x, 'e, 'a) Operation = "'x Runtime \<Rightarrow> ('e + 'a) \<times> 'x Runtime"

text \<open>
  \<open>sleep(ms)\<close> is \<open>new Promise(resolve => setTimeout(resolve, ms))\<close>: the caller goes on
  once the delay has passed, here at the first whole millisecond.
\<close>

definition sleep :: "rat \<Rightarrow> ('x, 'z) Runtime_scheme \<Rightarrow> ('x, 'z) Runtime_scheme" where
  "sleep ms rt = rt\<lparr>clock := clock rt + max 0 \<lceil>ms\<rceil>, slept := slept rt @ [ms]\<rparr>"

text \<open>\<open>Math.random()\<close> takes the next value of the list; past its end it returns 0.\<close>

definition Math_random :: "('x, 'z) Runtime_scheme \<Rightarrow> rat \<times> ('x, 'z) Runtime_scheme" where
  "Math_random rt = (case randoms rt of [] \<Rightarrow> (0, rt) | r # rs \<Rightarrow> (r, rt\<lparr>randoms := rs\<rparr>))"

section \<open>Rate limiter (sliding window)\<close>

text \<open>
  The class \<open>RateLimiter\<close> keeps the instants of the admitted requests in the array
  \<open>requests\<close>. Instants and durations are JavaScript numbers holding whole
  milliseconds (\<open>Date.now()\<close>); they are modelled as \<open>int\<close>, and the clock is an
  argument \<open>now\<close> of every method that reads it.

  \<open>acquire\<close> throws \<open>new Error(`Rate limit exceeded. Wait ${waitTime}ms before
  retrying.`)\<close>. The thrown object is modelled by the constructor \<open>RateLimitExceeded\<close>
  carrying the number spliced into the message; \<open>None\<close> stands for \<open>NaN\<close>, which is what
  \<open>windowMs - (now - undefined)\<close> gives when the pruned array is empty.
\<close>

datatype RateLimitError = RateLimitExceeded (waitTime: "int option")

record RateLimiter =
  maxRequests :: int
  windowMs :: int
  requests :: "int list"

definition RateLimiter_new :: "int \<Rightarrow> int \<Rightarrow> RateLimiter" where
  "RateLimiter_new maxReq win = \<lparr>maxRequests = maxReq, windowMs = win, requests = []\<rparr>"

definition RateLimiter_acquire ::
  "int \<Rightarrow> RateLimiter \<Rightarrow> (RateLimitError + unit) \<times> RateLimiter" where
  "RateLimiter_acquire now rl =
     (let rl1 = rl\<lparr>requests := filter (\<lambda>time. now - time < windowMs rl) (requests rl)\<rparr>
      in if int (length (requests rl1)) \<ge> maxRequests rl1 then
           (let waitTime = (case requests rl1 of
                              [] \<Rightarrow> None
                            | oldestRequest # _ \<Rightarrow> Some (windowMs rl1 - (now - oldestRequest)))
            in (Inl (RateLimitExceeded waitTime), rl1))
         else (Inr (), rl1\<lparr>requests := requests rl1 @ [now]\<rparr>))"

text \<open>A run of \<open>acquire\<close> calls at the given instants; the outcomes are collected in order.\<close>

fun acquire_all :: "int list \<Rightarrow> RateLimiter \<Rightarrow> (RateLimitError + unit) list \<times> RateLimiter" where
  "acquire_all [] rl = ([], rl)"
| "acquire_all (now # nows) rl =
     (let (r, rl1) = RateLimiter_acquire now rl;
          (rs, rl2) = acquire_all nows rl1
      in (r # rs, rl2))"

text \<open>
  The constructor starts with an empty array and \<open>acquire\<close> appends at most one instant,
  and only below \<open>maxRequests\<close>: the array never outgrows the limit.
\<close>

definition RateLimiter_inv :: "RateLimiter \<Rightarrow> bool" where
  "RateLimiter_inv rl = (int (length (requests rl)) \<le> max 0 (maxRequests rl))"

text \<open>
  A limiter of five requests a second that has admitted five requests at the instants
  0 to 4 (the example of the specification).
\<close>

definition rl5 :: RateLimiter where
  "rl5 = \<lparr>maxRequests = 5, windowMs = 1000, requests = [0, 1, 2, 3, 4]\<rparr>"

section \<open>Cache-aside\<close>

text \<open>
  The class \<open>CacheAside\<close>. Its \<open>Map<string, {data, expiry}>\<close> is an association list in
  insertion order with one pair a key: \<open>Map.get\<close> is \<open>map_of\<close>, \<open>Map.set\<close> is
  \<open>AList.update\<close> (an existing key keeps its place, a new one goes last), \<open>Map.delete\<close>
  is \<open>AList.delete\<close>, \<open>Map.size\<close> is the length and \<open>keys().next().value\<close> is the key
  of the first pair (\<open>undefined\<close> on an empty map).
\<close>

record 'v CacheEntry =
  data :: 'v
  expiry :: int

record 'v CacheAside =
  ttlMs :: int
  maxSize :: int
  cache :: "(string \<times> 'v CacheEntry) list"

text \<open>The constructor; an argument left out (\<open>None\<close>) takes its default.\<close>

definition CacheAside_new :: "int option \<Rightarrow> int option \<Rightarrow> 'v CacheAside" where
  "CacheAside_new ttl msize =
     \<lparr>ttlMs = (case ttl of None \<Rightarrow> 300000 | Some t \<Rightarrow> t),
      maxSize = (case msize of None \<Rightarrow> 1000 | Some m \<Rightarrow> m),
      cache = []\<rparr>"

text \<open>
  \<open>set(key, data)\<close>, with \<open>now\<close> the value of \<open>Date.now()\<close> at the store. The guard
  \<open>if (firstKey)\<close> is JavaScript truthiness: it fails for \<open>undefined\<close> and for the empty
  string.
\<close>

definition CacheAside_set :: "string \<Rightarrow> 'v \<Rightarrow> int \<Rightarrow> 'v CacheAside \<Rightarrow> 'v CacheAside" where
  "CacheAside_set key d now c =
     (let c1 = (if int (length (cache c)) \<ge> maxSize c then
                  (case cache c of
                     [] \<Rightarrow> c
                   | (firstKey, _) # _ \<Rightarrow>
                       if firstKey \<noteq> [] then c\<lparr>cache := AList.delete firstKey (cache c)\<rparr> else c)
                else c)
      in c1\<lparr>cache := AList.update key \<lparr>data = d, expiry = now + ttlMs c1\<rparr> (cache c1)\<rparr>)"

definition CacheAside_get ::
  "string \<Rightarrow> ('x, 'e, 'v) Operation \<Rightarrow> 'v CacheAside \<times> 'x Runtime
     \<Rightarrow> ('e + 'v) \<times> ('v CacheAside \<times> 'x Runtime)" where
  "CacheAside_get key fetchFunction s =
     (let (c, rt) = s in
      case map_of (cache c) key of
        Some cached \<Rightarrow>
          if expiry cached > clock rt then (Inr (data cached), (c, rt))
          else (case fetchFunction rt of
                  (Inl error, rt1) \<Rightarrow> (Inl error, (c, rt1))
                | (Inr d, rt1) \<Rightarrow> (Inr d, (CacheAside_set key d (clock rt1) c, rt1)))
      | None \<Rightarrow>
          (case fetchFunction rt of
             (Inl error, rt1) \<Rightarrow> (Inl error, (c, rt1))
           | (Inr d, rt1) \<Rightarrow> (Inr d, (CacheAside_set key d (clock rt1) c, rt1))))"

definition CacheAside_invalidate :: "string \<Rightarrow> 'v CacheAside \<Rightarrow> 'v CacheAside" where
  "CacheAside_invalidate key c = c\<lparr>cache := AList.delete key (cache c)\<rparr>"

definition CacheAside_clear :: "'v CacheAside \<Rightarrow> 'v CacheAside" where
  "CacheAside_clear c = c\<lparr>cache := []\<rparr>"

text \<open>
  Fetch functions for the examples. Each invocation adds one to the counter \<open>ext\<close>, so the
  runtime shows how often the function has run.
\<close>

definition fetchOk :: "'v \<Rightarrow> (nat, string, 'v) Operation" where
  "fetchOk v rt = (Inr v, rt\<lparr>ext := Suc (ext rt)\<rparr>)"


definition rt0 :: "nat Runtime" where
  "rt0 = \<lparr>clock = 0, slept = [], randoms = [], ext = 0\<rparr>"

section \<open>Resilience contracts\<close>

text \<open>
  The types that \<open>resilience.ts\<close> imports from \<open>@platform/shared-contracts\<close>
  (\<open>src/unnamed/part_002\<close>). Counters are natural numbers, thresholds and instants are
  integers, an optional field is an \<open>option\<close>. The field \<open>circuitBreaker\<close> of
  \<open>ServiceHealth\<close> is called \<open>circuitBreakerMetrics\<close> here, since \<open>ResilienceConfig\<close> has a
  field of the same name.
\<close>

record CircuitBreakerConfig =
  failureThreshold :: int
  resetTimeout :: int
  monitoringPeriod :: int

record RetryConfig =
  maxAttempts :: int
  initialDelay :: rat
  maxDelay :: rat
  backoffMultiplier :: rat
  retryableErrors :: "string list"

record TimeoutConfig =
  connection :: int
  response :: int

record BulkheadConfig =
  maxConcurrent :: int
  maxQueue :: int

record ResilienceConfig =
  circuitBreaker :: "CircuitBreakerConfig option"
  retry :: "RetryConfig option"
  timeout :: "TimeoutConfig option"
  bulkhead :: "BulkheadConfig option"

datatype CircuitBreakerState = CLOSED | OPEN | HALF_OPEN

record CircuitBreakerMetrics =
  state :: CircuitBreakerState
  failureCount :: nat
  successCount :: nat
  lastFailureTime :: "int option"
  lastSuccessTime :: "int option"
  nextRetryTime :: "int option"

datatype HealthStatus = healthy | degraded | unhealthy

record ServiceHealth =
  service :: string
  status :: HealthStatus
  lastCheck :: int
  responseTime :: rat
  errorRate :: rat
  circuitBreakerMetrics :: "CircuitBreakerMetrics option"

text \<open>
  What a promise is rejected with: an \<open>Error\<close> object with its name and message
  (\<open>new Error(msg)\<close> has the name \<open>Error\<close>), or the value \<open>undefined\<close>, which the retry
  policies throw when they make no attempt at all.
\<close>

datatype JsError = JsError (name: string) (message: string) | JsUndefined

definition Error_new :: "string \<Rightarrow> JsError" where
  "Error_new msg = JsError ''Error'' msg"

section \<open>Circuit breaker of \<open>resilience.ts\<close>\<close>

text \<open>
  The class \<open>CircuitBreaker\<close> of \<open>packages/observability/src/resilience.ts\<close>: its private
  fields are those of \<open>CircuitBreakerMetrics\<close> (which \<open>getMetrics\<close> copies out) and the
  configuration. \<open>now\<close> is the value of \<open>Date.now()\<close> in the method.
\<close>

record CircuitBreaker = CircuitBreakerMetrics +
  config :: CircuitBreakerConfig

definition CircuitBreaker_new :: "CircuitBreakerConfig \<Rightarrow> CircuitBreaker" where
  "CircuitBreaker_new cfg =
     \<lparr>state = CLOSED, failureCount = 0, successCount = 0, lastFailureTime = None,
      lastSuccessTime = None, nextRetryTime = None, config = cfg\<rparr>"

definition CircuitBreaker_onSuccess :: "int \<Rightarrow> CircuitBreaker \<Rightarrow> CircuitBreaker" where
  "CircuitBreaker_onSuccess now cb =
     (let cb1 = cb\<lparr>successCount := successCount cb + 1, lastSuccessTime := Some now\<rparr>
      in if state cb1 = HALF_OPEN then cb1\<lparr>state := CLOSED, failureCount := 0\<rparr> else cb1)"

definition CircuitBreaker_onFailure :: "int \<Rightarrow> CircuitBreaker \<Rightarrow> CircuitBreaker" where
  "CircuitBreaker_onFailure now cb =
     (let cb1 = cb\<lparr>failureCount := failureCount cb + 1, lastFailureTime := Some now\<rparr>
      in if int (failureCount cb1) \<ge> failureThreshold (config cb1)
         then cb1\<lparr>state := OPEN, nextRetryTime := Some (now + resetTimeout (config cb1))\<rparr>
         else cb1)"

definition CircuitBreaker_getMetrics :: "CircuitBreaker \<Rightarrow> CircuitBreakerMetrics" where
  "CircuitBreaker_getMetrics cb =
     \<lparr>state = state cb, failureCount = failureCount cb, successCount = successCount cb,
      lastFailureTime = lastFailureTime cb, lastSuccessTime = lastSuccessTime cb,
      nextRetryTime = nextRetryTime cb\<rparr>"

definition CircuitBreaker_reset :: "CircuitBreaker \<Rightarrow> CircuitBreaker" where
  "CircuitBreaker_reset cb =
     cb\<lparr>state := CLOSED, failureCount := 0, successCount := 0, lastFailureTime := None,
        lastSuccessTime := None, nextRetryTime := None\<rparr>"

text \<open>
  The objects of \<open>resilience.ts\<close> that change live in a heap on top of the runtime: a
  circuit breaker and a bulkhead at every address. A caller's operation sees the runtime
  only (\<open>invoke\<close>), never the private fields of the objects.
\<close>

type_synonym ref = string

record Bulkhead =
  bconfig :: BulkheadConfig
  running :: int
  queue :: "nat list"

record 'x Heap = "'x Runtime" +
  breakerAt :: "ref \<Rightarrow> CircuitBreaker"
  bulkheadAt :: "ref \<Rightarrow> Bulkhead"
  promises :: nat
  resolvedUndefined :: "nat list"

type_synonym ('x, 'a) Wrapped = "'x Heap \<Rightarrow> (JsError + 'a) \<times> 'x Heap"

definition invoke :: "('x, JsError, 'a) Operation \<Rightarrow> ('x, 'a) Wrapped" where
  "invoke operation h =
     (let (r, rt) = operation (Runtime.truncate h)
      in (r, h\<lparr>clock := clock rt, slept := slept rt, randoms := randoms rt, ext := ext rt\<rparr>))"

definition CircuitBreaker_execute :: "ref \<Rightarrow> ('x, 'a) Wrapped \<Rightarrow> ('x, 'a) Wrapped" where
  "CircuitBreaker_execute this operation h =
     (let cb = breakerAt h this in
      if state cb = OPEN \<and> \<not> (clock h \<ge> (case nextRetryTime cb of None \<Rightarrow> 0 | Some t \<Rightarrow> t))
      then (Inl (Error_new ''Circuit breaker is OPEN''), h)
      else
        (let h1 = (if state cb = OPEN
                   then h\<lparr>breakerAt := (breakerAt h)(this := cb\<lparr>state := HALF_OPEN\<rparr>)\<rparr>
                   else h);
             (r, h2) = operation h1
         in case r of
              Inr result \<Rightarrow>
                (Inr result,
                 h2\<lparr>breakerAt := (breakerAt h2)
                        (this := CircuitBreaker_onSuccess (clock h2) (breakerAt h2 this))\<rparr>)
            | Inl error \<Rightarrow>
                (Inl error,
                 h2\<lparr>breakerAt := (breakerAt h2)
                        (this := CircuitBreaker_onFailure (clock h2) (breakerAt h2 this))\<rparr>)))"

section \<open>Resilience manager: registry and health\<close>

text \<open>
  The class \<open>ResilienceManager\<close> of \<open>resilience.ts\<close>. Its four maps go from a service name
  to the component built for it: a circuit breaker and a bulkhead are objects in the heap
  (the map holds their address), a retry policy and a timeout manager hold nothing but
  their configuration. The \<open>Map\<close> handed to the constructor is a list of pairs in
  insertion order.
\<close>

record ResilienceManager =
  configs :: "(string \<times> ResilienceConfig) list"
  circuitBreakers :: "string \<rightharpoonup> ref"
  retryPolicies :: "string \<rightharpoonup> RetryConfig"
  timeoutManagers :: "string \<rightharpoonup> TimeoutConfig"
  bulkheads :: "string \<rightharpoonup> ref"

definition Bulkhead_new :: "BulkheadConfig \<Rightarrow> Bulkhead" where
  "Bulkhead_new cfg = \<lparr>bconfig = cfg, running = 0, queue = []\<rparr>"

text \<open>
  One round of the loop of \<open>initializeComponents\<close>. An object made for a service is
  allocated at the address that bears the service's name.
\<close>

definition initializeComponent ::
  "string \<times> ResilienceConfig \<Rightarrow> ResilienceManager \<times> 'x Heap \<Rightarrow> ResilienceManager \<times> 'x Heap" where
  "initializeComponent entry s =
     (let (service, cfg) = entry;
          (m, h) = s;
          (m1, h1) = (case circuitBreaker cfg of
                        Some c \<Rightarrow> (m\<lparr>circuitBreakers := (circuitBreakers m)(service \<mapsto> service)\<rparr>,
                                   h\<lparr>breakerAt := (breakerAt h)(service := CircuitBreaker_new c)\<rparr>)
                      | None \<Rightarrow> (m, h));
          m2 = (case retry cfg of
                  Some c \<Rightarrow> m1\<lparr>retryPolicies := (retryPolicies m1)(service \<mapsto> c)\<rparr>
                | None \<Rightarrow> m1);
          m3 = (case timeout cfg of
                  Some c \<Rightarrow> m2\<lparr>timeoutManagers := (timeoutManagers m2)(service \<mapsto> c)\<rparr>
                | None \<Rightarrow> m2)
      in (case bulkhead cfg of
            Some c \<Rightarrow> (m3\<lparr>bulkheads := (bulkheads m3)(service \<mapsto> service)\<rparr>,
                       h1\<lparr>bulkheadAt := (bulkheadAt h1)(service := Bulkhead_new c)\<rparr>)
          | None \<Rightarrow> (m3, h1)))"

definition ResilienceManager_new ::
  "(string \<times> ResilienceConfig) list \<Rightarrow> 'x Heap \<Rightarrow> ResilienceManager \<times> 'x Heap" where
  "ResilienceManager_new cfgs h =
     foldl (\<lambda>s entry. initializeComponent entry s)
       (\<lparr>configs = cfgs, circuitBreakers = Map.empty, retryPolicies = Map.empty,
         timeoutManagers = Map.empty, bulkheads = Map.empty\<rparr>, h)
       cfgs"

definition determineStatus :: "CircuitBreakerMetrics option \<Rightarrow> HealthStatus" where
  "determineStatus metrics =
     (case metrics of
        None \<Rightarrow> healthy
      | Some m \<Rightarrow>
          if state m = OPEN then unhealthy
          else if state m = HALF_OPEN then degraded
          else if failureCount m > 0 then degraded
          else healthy)"

definition calculateErrorRate :: "CircuitBreakerMetrics option \<Rightarrow> rat" where
  "calculateErrorRate metrics =
     (case metrics of
        None \<Rightarrow> 0
      | Some m \<Rightarrow>
          if failureCount m + successCount m = 0 then 0
          else (of_nat (failureCount m) / of_nat (failureCount m + successCount m)) * 100)"

definition getServiceHealth :: "ResilienceManager \<Rightarrow> string \<Rightarrow> 'x Heap \<Rightarrow> ServiceHealth" where
  "getServiceHealth m svc h =
     (let metrics = (case circuitBreakers m svc of
                       None \<Rightarrow> None
                     | Some r \<Rightarrow> Some (CircuitBreaker_getMetrics (breakerAt h r)))
      in \<lparr>service = svc, status = determineStatus metrics, lastCheck = clock h,
          responseTime = 0, errorRate = calculateErrorRate metrics,
          circuitBreakerMetrics = metrics\<rparr>)"

definition getAllServiceHealth :: "ResilienceManager \<Rightarrow> 'x Heap \<Rightarrow> ServiceHealth list" where
  "getAllServiceHealth m h = map (\<lambda>svc. getServiceHealth m svc h) (map fst (configs m))"

text \<open>An empty heap, and a manager for one service \<open>payment-api\<close> with every layer.\<close>

definition heap0 :: "nat Heap" where
  "heap0 =
     \<lparr>clock = 0, slept = [], randoms = [], ext = 0,
      breakerAt = (\<lambda>_. CircuitBreaker_new \<lparr>failureThreshold = 0, resetTimeout = 0, monitoringPeriod = 0\<rparr>),
      bulkheadAt = (\<lambda>_. Bulkhead_new \<lparr>maxConcurrent = 0, maxQueue = 0\<rparr>),
      promises = 0, resolvedUndefined = []\<rparr>"

definition paymentConfig :: ResilienceConfig where
  "paymentConfig =
     \<lparr>circuitBreaker = Some \<lparr>failureThreshold = 5, resetTimeout = 60000, monitoringPeriod = 30000\<rparr>,
      retry = Some \<lparr>maxAttempts = 3, initialDelay = 1000, maxDelay = 10000, backoffMultiplier = 2,
                    retryableErrors = [''ECONNRESET'', ''ETIMEDOUT'']\<rparr>,
      timeout = Some \<lparr>connection = 1000, response = 5000\<rparr>,
      bulkhead = Some \<lparr>maxConcurrent = 10, maxQueue = 100\<rparr>\<rparr>"

text \<open>
  A breaker of \<open>resilience.ts\<close> leaves the closed state only through \<open>onFailure\<close> at the
  threshold, which also sets \<open>nextRetryTime\<close>; the count stays until a success closes it.
\<close>

definition CircuitBreaker_inv :: "CircuitBreaker \<Rightarrow> bool" where
  "CircuitBreaker_inv cb =
     (state cb = CLOSED \<or>
      (failureThreshold (config cb) \<le> int (failureCount cb) \<and> nextRetryTime cb \<noteq> None))"

section \<open>Circuit breaker of \<open>src/unnamed/part_000\<close>\<close>

text \<open>
  The second class \<open>CircuitBreaker\<close> of the repository, in \<open>src/unnamed/part_000\<close>
  (the file of the patterns \<open>CircuitBreaker\<close>, \<open>RetryPolicy\<close>, \<open>Bulkhead\<close>, \<open>Timeout\<close>,
  \<open>CacheAside\<close>, \<open>RateLimiter\<close>). Where a class of that file shares its name with a class
  of \<open>resilience.ts\<close>, its model and its fields carry the suffix \<open>0\<close>. Its enum
  \<open>CircuitState\<close> has the three values of \<open>CircuitBreakerState\<close> and shares the datatype.
  The operation is a constructor argument kept in a read-only field; the model passes it
  to \<open>execute\<close>.
\<close>

record CircuitBreakerOptions =
  optFailureThreshold :: "int option"
  optResetTimeout :: "int option"
  optMonitoringPeriod :: "int option"
  optExpectedRecoveryTime :: "int option"

record CircuitBreaker0 =
  name0 :: string
  state0 :: CircuitBreakerState
  failureCount0 :: nat
  lastFailureTime0 :: int
  successCount0 :: nat
  failureThreshold0 :: int
  resetTimeout0 :: int
  monitoringPeriod0 :: int
  expectedRecoveryTime0 :: int

text \<open>\<open>x || d\<close> on an optional number: the default replaces \<open>undefined\<close> and 0.\<close>

definition orDefault :: "int option \<Rightarrow> int \<Rightarrow> int" where
  "orDefault x d = (case x of None \<Rightarrow> d | Some v \<Rightarrow> if v = 0 then d else v)"

definition CircuitBreaker0_new :: "string \<Rightarrow> CircuitBreakerOptions \<Rightarrow> CircuitBreaker0" where
  "CircuitBreaker0_new nm options =
     \<lparr>name0 = nm, state0 = CLOSED, failureCount0 = 0, lastFailureTime0 = 0, successCount0 = 0,
      failureThreshold0 = orDefault (optFailureThreshold options) 5,
      resetTimeout0 = orDefault (optResetTimeout options) 60000,
      monitoringPeriod0 = orDefault (optMonitoringPeriod options) 10000,
      expectedRecoveryTime0 = orDefault (optExpectedRecoveryTime options) 30000\<rparr>"

definition CircuitBreaker0_onSuccess :: "CircuitBreaker0 \<Rightarrow> CircuitBreaker0" where
  "CircuitBreaker0_onSuccess cb =
     (let cb1 = cb\<lparr>failureCount0 := 0\<rparr>
      in if state0 cb1 = HALF_OPEN then
           (let cb2 = cb1\<lparr>successCount0 := successCount0 cb1 + 1\<rparr>
            in if successCount0 cb2 \<ge> 3 then cb2\<lparr>state0 := CLOSED\<rparr> else cb2)
         else cb1)"

definition CircuitBreaker0_onFailure :: "int \<Rightarrow> CircuitBreaker0 \<Rightarrow> CircuitBreaker0" where
  "CircuitBreaker0_onFailure now cb =
     (let cb1 = cb\<lparr>failureCount0 := failureCount0 cb + 1, lastFailureTime0 := now\<rparr>
      in if state0 cb1 = HALF_OPEN then cb1\<lparr>state0 := OPEN\<rparr>
         else if int (failureCount0 cb1) \<ge> failureThreshold0 cb1 then cb1\<lparr>state0 := OPEN\<rparr>
         else cb1)"

definition CircuitBreaker0_shouldAttemptReset :: "int \<Rightarrow> CircuitBreaker0 \<Rightarrow> bool" where
  "CircuitBreaker0_shouldAttemptReset now cb = (now - lastFailureTime0 cb \<ge> resetTimeout0 cb)"

text \<open>The message \<open>`Circuit breaker '${this.name}' is OPEN`\<close>.\<close>

definition CircuitBreaker0_openError :: "CircuitBreaker0 \<Rightarrow> JsError" where
  "CircuitBreaker0_openError cb =
     Error_new (''Circuit breaker '' @ [CHR 0x27] @ name0 cb @ [CHR 0x27] @ '' is OPEN'')"

definition CircuitBreaker0_execute ::
  "('args \<Rightarrow> ('x, JsError, 'a) Operation) \<Rightarrow> 'args \<Rightarrow> CircuitBreaker0 \<times> 'x Runtime
     \<Rightarrow> (JsError + 'a) \<times> (CircuitBreaker0 \<times> 'x Runtime)" where
  "CircuitBreaker0_execute operation args s =
     (let (cb, rt) = s in
      if state0 cb = OPEN \<and> \<not> CircuitBreaker0_shouldAttemptReset (clock rt) cb
      then (Inl (CircuitBreaker0_openError cb), (cb, rt))
      else
        (let cb1 = (if state0 cb = OPEN then cb\<lparr>state0 := HALF_OPEN, successCount0 := 0\<rparr> else cb);
             (r, rt1) = operation args rt
         in case r of
              Inr result \<Rightarrow> (Inr result, (CircuitBreaker0_onSuccess cb1, rt1))
            | Inl error \<Rightarrow> (Inl error, (CircuitBreaker0_onFailure (clock rt1) cb1, rt1))))"

definition CircuitBreaker0_reset :: "CircuitBreaker0 \<Rightarrow> CircuitBreaker0" where
  "CircuitBreaker0_reset cb =
     cb\<lparr>state0 := CLOSED, failureCount0 := 0, successCount0 := 0, lastFailureTime0 := 0\<rparr>"

text \<open>Calls of \<open>execute\<close> one after the other, with the outcomes in order.\<close>

fun CircuitBreaker0_run ::
  "('args \<Rightarrow> ('x, JsError, 'a) Operation) \<Rightarrow> 'args list \<Rightarrow> CircuitBreaker0 \<times> 'x Runtime
     \<Rightarrow> (JsError + 'a) list \<times> (CircuitBreaker0 \<times> 'x Runtime)" where
  "CircuitBreaker0_run operation [] s = ([], s)"
| "CircuitBreaker0_run operation (args # rest) s =
     (let (r, s1) = CircuitBreaker0_execute operation args s;
          (rs, s2) = CircuitBreaker0_run operation rest s1
      in (r # rs, s2))"

fun CircuitBreaker_run ::
  "ref \<Rightarrow> ('x, JsError, 'a) Operation list \<Rightarrow> 'x Heap \<Rightarrow> (JsError + 'a) list \<times> 'x Heap" where
  "CircuitBreaker_run this [] h = ([], h)"
| "CircuitBreaker_run this (operation # rest) h =
     (let (r, h1) = CircuitBreaker_execute this (invoke operation) h;
          (rs, h2) = CircuitBreaker_run this rest h1
      in (r # rs, h2))"

section \<open>Retry policies\<close>

text \<open>
  Reading \<open>.message\<close> of \<open>undefined\<close> throws a \<open>TypeError\<close>; both retry policies read the
  message of the error they caught before they sleep.
\<close>

definition TypeError_message :: JsError where
  "TypeError_message =
     JsError ''TypeError''
       (''Cannot read properties of undefined (reading '' @ [CHR 0x27] @ ''message'' @ [CHR 0x27] @ '')'')"

text \<open>\<open>String.prototype.includes\<close>: the pattern occurs somewhere in the string.\<close>

fun startsWith :: "string \<Rightarrow> string \<Rightarrow> bool" where
  "startsWith s [] = True"
| "startsWith [] (c # p) = False"
| "startsWith (x # s) (c # p) = (x = c \<and> startsWith s p)"

fun String_includes :: "string \<Rightarrow> string \<Rightarrow> bool" where
  "String_includes [] p = startsWith [] p"
| "String_includes (x # s) p = (startsWith (x # s) p \<or> String_includes s p)"

subsection \<open>\<open>RetryPolicy\<close> of \<open>resilience.ts\<close>\<close>

text \<open>
  The object holds its \<open>RetryConfig\<close> and nothing else. \<open>isRetryableError\<close> reads the
  message of the error for the first pattern it tries: on \<open>undefined\<close> that throws the
  \<open>TypeError\<close>, unless there is no pattern to try.
\<close>

definition isRetryableError :: "RetryConfig \<Rightarrow> JsError \<Rightarrow> bool" where
  "isRetryableError cfg error =
     list_ex (\<lambda>errorPattern. String_includes (message error) errorPattern \<or>
                              String_includes (name error) errorPattern)
       (retryableErrors cfg)"

text \<open>
  The \<open>for\<close> loop from the round \<open>attempt\<close> on, with the current value of the variable
  \<open>delay\<close>. The loop is left by \<open>return\<close> or by \<open>break\<close>, after which \<open>lastError\<close> is
  thrown; when no round runs, \<open>lastError\<close> is still \<open>undefined\<close>.
\<close>

function RetryPolicy_attempts ::
  "RetryConfig \<Rightarrow> (('x, 'z) Runtime_scheme \<Rightarrow> (JsError + 'a) \<times> ('x, 'z) Runtime_scheme)
     \<Rightarrow> int \<Rightarrow> rat \<Rightarrow> ('x, 'z) Runtime_scheme \<Rightarrow> (JsError + 'a) \<times> ('x, 'z) Runtime_scheme" where
  "RetryPolicy_attempts cfg operation attempt delay rt =
     (if attempt \<le> maxAttempts cfg then
        (case operation rt of
           (Inr result, rt1) \<Rightarrow> (Inr result, rt1)
         | (Inl error, rt1) \<Rightarrow>
             if attempt = maxAttempts cfg then (Inl error, rt1)
             else if error = JsUndefined \<and> retryableErrors cfg \<noteq> []
                  then (Inl TypeError_message, rt1)
             else if \<not> isRetryableError cfg error then (Inl error, rt1)
             else RetryPolicy_attempts cfg operation (attempt + 1)
                    (min (delay * backoffMultiplier cfg) (maxDelay cfg)) (sleep delay rt1))
      else (Inl JsUndefined, rt))"
  by pat_completeness auto
termination
  by (relation "measure (\<lambda>(cfg, operation, attempt, delay, rt). nat (maxAttempts cfg - attempt))") auto

declare RetryPolicy_attempts.simps [simp del]

definition RetryPolicy_execute ::
  "RetryConfig \<Rightarrow> (('x, 'z) Runtime_scheme \<Rightarrow> (JsError + 'a) \<times> ('x, 'z) Runtime_scheme)
     \<Rightarrow> ('x, 'z) Runtime_scheme \<Rightarrow> (JsError + 'a) \<times> ('x, 'z) Runtime_scheme" where
  "RetryPolicy_execute cfg operation rt = RetryPolicy_attempts cfg operation 1 (initialDelay cfg) rt"

subsection \<open>\<open>RetryPolicy\<close> of \<open>part_000\<close>\<close>

record RetryPolicy0 =
  maxAttempts0 :: int
  baseDelay0 :: rat
  maxDelay0 :: rat
  backoffMultiplier0 :: rat

text \<open>The constructor; an argument left out (\<open>None\<close>) takes its default.\<close>

definition RetryPolicy0_new ::
  "int option \<Rightarrow> rat option \<Rightarrow> rat option \<Rightarrow> rat option \<Rightarrow> RetryPolicy0" where
  "RetryPolicy0_new attempts base maxd mult =
     \<lparr>maxAttempts0 = (case attempts of None \<Rightarrow> 3 | Some n \<Rightarrow> n),
      baseDelay0 = (case base of None \<Rightarrow> 1000 | Some d \<Rightarrow> d),
      maxDelay0 = (case maxd of None \<Rightarrow> 30000 | Some d \<Rightarrow> d),
      backoffMultiplier0 = (case mult of None \<Rightarrow> 2 | Some m \<Rightarrow> m)\<rparr>"

text \<open>
  The delay computed in the round \<open>attempt\<close>:
  \<open>Math.min(this.baseDelay * Math.pow(this.backoffMultiplier, attempt - 1), this.maxDelay)\<close>.
\<close>

definition RetryPolicy0_delay :: "RetryPolicy0 \<Rightarrow> int \<Rightarrow> rat" where
  "RetryPolicy0_delay p attempt =
     min (baseDelay0 p * backoffMultiplier0 p ^ nat (attempt - 1)) (maxDelay0 p)"

text \<open>
  The loop from the round \<open>attempt\<close> on. \<open>Math.random()\<close> is drawn before the message of
  the error is read for \<open>console.warn\<close>.
\<close>

function RetryPolicy0_attempts ::
  "RetryPolicy0 \<Rightarrow> (('x, 'z) Runtime_scheme \<Rightarrow> (JsError + 'a) \<times> ('x, 'z) Runtime_scheme)
     \<Rightarrow> (JsError \<Rightarrow> bool) \<Rightarrow> int \<Rightarrow> ('x, 'z) Runtime_scheme
     \<Rightarrow> (JsError + 'a) \<times> ('x, 'z) Runtime_scheme" where
  "RetryPolicy0_attempts p operation shouldRetry attempt rt =
     (if attempt \<le> maxAttempts0 p then
        (case operation rt of
           (Inr result, rt1) \<Rightarrow> (Inr result, rt1)
         | (Inl error, rt1) \<Rightarrow>
             if attempt = maxAttempts0 p \<or> \<not> shouldRetry error then (Inl error, rt1)
             else
               (let delay = RetryPolicy0_delay p attempt;
                    (r, rt2) = Math_random rt1;
                    jitter = delay * (1 / 10) * r;
                    totalDelay = delay + jitter
                in if error = JsUndefined then (Inl TypeError_message, rt2)
                   else RetryPolicy0_attempts p operation shouldRetry (attempt + 1)
                          (sleep totalDelay rt2)))
      else (Inl JsUndefined, rt))"
  by pat_completeness auto
termination
  by (relation "measure (\<lambda>(p, operation, shouldRetry, attempt, rt). nat (maxAttempts0 p - attempt))") auto

declare RetryPolicy0_attempts.simps [simp del]

text \<open>\<open>execute(operation, shouldRetry)\<close>; a predicate left out retries every error.\<close>

definition RetryPolicy0_execute ::
  "RetryPolicy0 \<Rightarrow> (('x, 'z) Runtime_scheme \<Rightarrow> (JsError + 'a) \<times> ('x, 'z) Runtime_scheme)
     \<Rightarrow> (JsError \<Rightarrow> bool) option \<Rightarrow> ('x, 'z) Runtime_scheme
     \<Rightarrow> (JsError + 'a) \<times> ('x, 'z) Runtime_scheme" where
  "RetryPolicy0_execute p operation shouldRetry rt =
     RetryPolicy0_attempts p operation
       (case shouldRetry of None \<Rightarrow> (\<lambda>error. True) | Some f \<Rightarrow> f) 1 rt"

section \<open>Timeout, bulkhead and the pipeline of \<open>resilience.ts\<close>\<close>

subsection \<open>\<open>TimeoutManager\<close>\<close>

text \<open>
  \<open>execute\<close> races the operation against a timer of \<open>config.response\<close> milliseconds. In
  the model the operation runs to its end, and the timer has won the race when more than
  that delay has passed on the clock (a tie goes to the operation). Losing the race does
  not cancel the operation: what it did to the runtime stays.
\<close>

definition TimeoutManager_execute ::
  "TimeoutConfig \<Rightarrow> (('x, 'z) Runtime_scheme \<Rightarrow> (JsError + 'a) \<times> ('x, 'z) Runtime_scheme)
     \<Rightarrow> ('x, 'z) Runtime_scheme \<Rightarrow> (JsError + 'a) \<times> ('x, 'z) Runtime_scheme" where
  "TimeoutManager_execute cfg operation rt =
     (let (r, rt1) = operation rt
      in if clock rt1 - clock rt > max 0 (response cfg)
         then (Inl (Error_new ''Operation timeout''), rt1)
         else (r, rt1))"

subsection \<open>\<open>Bulkhead\<close>\<close>

text \<open>
  The class \<open>Bulkhead\<close> of \<open>resilience.ts\<close>. An entry \<open>{resolve, reject}\<close> of the queue is the
  promise it settles, known by a number (\<open>promises\<close> counts the promises queued so far).
  The queue holds no operation. \<open>resolvedUndefined\<close> lists the queued promises that have
  been resolved with \<open>undefined\<close>, in order.

  \<open>runOperation\<close> is split at its \<open>await\<close>: \<open>Bulkhead_start\<close> is the part before it
  (\<open>this.running++\<close>, after which the operation is called), \<open>Bulkhead_finally\<close> the
  \<open>finally\<close> block that runs once the operation has settled.
\<close>

definition Bulkhead_start :: "ref \<Rightarrow> 'x Heap \<Rightarrow> 'x Heap" where
  "Bulkhead_start this h =
     h\<lparr>bulkheadAt := (bulkheadAt h)
          (this := (bulkheadAt h this)\<lparr>running := running (bulkheadAt h this) + 1\<rparr>)\<rparr>"

text \<open>
  \<open>processQueue\<close>: the oldest entry is taken off the queue and \<open>runOperation\<close> is called
  for it with the operation \<open>() => Promise.resolve()\<close>, which resolves the entry's promise
  with \<open>undefined\<close>; the \<open>finally\<close> block of that call decrements \<open>running\<close> and calls
  \<open>processQueue\<close> again.
\<close>

function Bulkhead_processQueue :: "ref \<Rightarrow> 'x Heap \<Rightarrow> 'x Heap" where
  "Bulkhead_processQueue this h =
     (let b = bulkheadAt h this in
      if length (queue b) > 0 \<and> running b < maxConcurrent (bconfig b) then
        (let next = hd (queue b);
             h1 = h\<lparr>bulkheadAt := (bulkheadAt h)(this := b\<lparr>queue := tl (queue b)\<rparr>)\<rparr>;
             h2 = Bulkhead_start this h1;
             h3 = h2\<lparr>resolvedUndefined := resolvedUndefined h2 @ [next]\<rparr>;
             h4 = h3\<lparr>bulkheadAt := (bulkheadAt h3)
                       (this := (bulkheadAt h3 this)\<lparr>running := running (bulkheadAt h3 this) - 1\<rparr>)\<rparr>
         in Bulkhead_processQueue this h4)
      else h)"
  by pat_completeness auto
termination
  by (relation "measure (\<lambda>(this, h). length (queue (bulkheadAt h this)))")
     (auto simp: Bulkhead_start_def)

declare Bulkhead_processQueue.simps [simp del]

definition Bulkhead_finally :: "ref \<Rightarrow> 'x Heap \<Rightarrow> 'x Heap" where
  "Bulkhead_finally this h =
     Bulkhead_processQueue this
       (h\<lparr>bulkheadAt := (bulkheadAt h)
             (this := (bulkheadAt h this)\<lparr>running := running (bulkheadAt h this) - 1\<rparr>)\<rparr>)"

definition Bulkhead_runOperation :: "ref \<Rightarrow> ('x, 'a) Wrapped \<Rightarrow> ('x, 'a) Wrapped" where
  "Bulkhead_runOperation this operation h =
     (let (r, h1) = operation (Bulkhead_start this h)
      in (r, Bulkhead_finally this h1))"

text \<open>
  What the promise returned by \<open>Bulkhead.execute\<close> has come to when the call is over:
  settled with the outcome of the operation or with the rejection of the bulkhead, or
  still pending in the queue.
\<close>

datatype 'a Settlement = Settled "JsError + 'a" | Pending nat

definition Bulkhead_execute ::
  "ref \<Rightarrow> ('x, 'a) Wrapped \<Rightarrow> 'x Heap \<Rightarrow> 'a Settlement \<times> 'x Heap" where
  "Bulkhead_execute this operation h =
     (let b = bulkheadAt h this in
      if running b < maxConcurrent (bconfig b) then
        (let (r, h1) = Bulkhead_runOperation this operation h in (Settled r, h1))
      else if int (length (queue b)) < maxQueue (bconfig b) then
        (Pending (promises h),
         h\<lparr>bulkheadAt := (bulkheadAt h)(this := b\<lparr>queue := queue b @ [promises h]\<rparr>),
           promises := promises h + 1\<rparr>)
      else (Settled (Inl (Error_new ''Bulkhead queue is full'')), h))"

subsection \<open>\<open>ResilienceManager.execute\<close>\<close>

text \<open>
  The operation is wrapped four times, each time only if the map has a component for the
  service, and the outermost function is called. Without a bulkhead the promise is
  settled when the call is over.
\<close>

definition ResilienceManager_execute ::
  "ResilienceManager \<Rightarrow> string \<Rightarrow> ('x, 'a) Wrapped \<Rightarrow> 'x Heap \<Rightarrow> 'a Settlement \<times> 'x Heap" where
  "ResilienceManager_execute m svc operation h =
     (let wrappedOperation = operation;
          wrappedOperation = (case circuitBreakers m svc of
                                Some cb \<Rightarrow> CircuitBreaker_execute cb wrappedOperation
                              | None \<Rightarrow> wrappedOperation);
          wrappedOperation = (case retryPolicies m svc of
                                Some rp \<Rightarrow> RetryPolicy_execute rp wrappedOperation
                              | None \<Rightarrow> wrappedOperation);
          wrappedOperation = (case timeoutManagers m svc of
                                Some tm \<Rightarrow> TimeoutManager_execute tm wrappedOperation
                              | None \<Rightarrow> wrappedOperation)
      in case bulkheads m svc of
           Some bh \<Rightarrow> Bulkhead_execute bh wrappedOperation h
         | None \<Rightarrow> (let (r, h1) = wrappedOperation h in (Settled r, h1)))"

text \<open>
  The pipeline as the specification words it: for each of the four layers, in the order
  bulkhead, timeout, retry, circuit breaker from the outside in, the layer when the
  configuration of the target has it and nothing when it has not. A component made for a
  target lives at the address that bears the target's name.
\<close>

definition pipeline_spec ::
  "ResilienceConfig option \<Rightarrow> string \<Rightarrow> ('x, 'a) Wrapped \<Rightarrow> 'x Heap \<Rightarrow> 'a Settlement \<times> 'x Heap" where
  "pipeline_spec cfg svc operation =
     (let breakerLayer = (case Option.bind cfg circuitBreaker of
                            None \<Rightarrow> id
                          | Some _ \<Rightarrow> CircuitBreaker_execute svc);
          retryLayer = (case Option.bind cfg retry of
                          None \<Rightarrow> id
                        | Some r \<Rightarrow> RetryPolicy_execute r);
          timeoutLayer = (case Option.bind cfg timeout of
                            None \<Rightarrow> id
                          | Some t \<Rightarrow> TimeoutManager_execute t);
          bulkheadLayer = (case Option.bind cfg bulkhead of
                             None \<Rightarrow> (\<lambda>w h. (let (r, h1) = w h in (Settled r, h1)))
                           | Some _ \<Rightarrow> Bulkhead_execute svc)
      in bulkheadLayer (timeoutLayer (retryLayer (breakerLayer operation))))"

section \<open>Bulkhead of \<open>part_000\<close>\<close>

text \<open>
  The class \<open>Bulkhead\<close> of \<open>src/unnamed/part_000\<close>. An entry of its queue is
  \<open>{resolve, reject, operation}\<close>: the promise to settle, known by a number, and the
  operation of the caller. There is no bound on the queue. \<open>process\<close> is split at its
  \<open>await\<close>: \<open>Bulkhead0_process\<close> is the part before it and returns the entry whose
  operation it calls, if any; \<open>Bulkhead0_finally\<close> is the \<open>finally\<close> block, run once that
  operation has settled and its outcome has gone to the entry's promise.
\<close>

record ('x, 'a) Bulkhead0 =
  semaphore0 :: int
  queue0 :: "(nat \<times> ('x, JsError, 'a) Operation) list"
  running0 :: int

text \<open>The constructor; \<open>maxConcurrent\<close> left out (\<open>None\<close>) is 10.\<close>

definition Bulkhead0_new :: "int option \<Rightarrow> ('x, 'a) Bulkhead0" where
  "Bulkhead0_new maxConc =
     \<lparr>semaphore0 = (case maxConc of None \<Rightarrow> 10 | Some n \<Rightarrow> n), queue0 = [], running0 = 0\<rparr>"

definition Bulkhead0_process ::
  "('x, 'a) Bulkhead0 \<Rightarrow> (nat \<times> ('x, JsError, 'a) Operation) option \<times> ('x, 'a) Bulkhead0" where
  "Bulkhead0_process b =
     (if running0 b \<ge> semaphore0 b \<or> length (queue0 b) = 0 then (None, b)
      else (Some (hd (queue0 b)), b\<lparr>running0 := running0 b + 1, queue0 := tl (queue0 b)\<rparr>))"

definition Bulkhead0_execute ::
  "nat \<Rightarrow> ('x, JsError, 'a) Operation \<Rightarrow> ('x, 'a) Bulkhead0
     \<Rightarrow> (nat \<times> ('x, JsError, 'a) Operation) option \<times> ('x, 'a) Bulkhead0" where
  "Bulkhead0_execute promise operation b =
     Bulkhead0_process (b\<lparr>queue0 := queue0 b @ [(promise, operation)]\<rparr>)"

definition Bulkhead0_finally ::
  "('x, 'a) Bulkhead0 \<Rightarrow> (nat \<times> ('x, JsError, 'a) Operation) option \<times> ('x, 'a) Bulkhead0" where
  "Bulkhead0_finally b = Bulkhead0_process (b\<lparr>running0 := running0 b - 1\<rparr>)"

section \<open>Example operations and an example manager\<close>

text \<open>
  Operations for the examples: each takes \<open>ms\<close> milliseconds and adds one to the counter
  \<open>ext\<close>, so the runtime shows how often an operation has run.
\<close>

definition succeed :: "nat \<Rightarrow> 'a \<Rightarrow> (nat, JsError, 'a) Operation" where
  "succeed ms v rt = (Inr v, rt\<lparr>clock := clock rt + int ms, ext := Suc (ext rt)\<rparr>)"

definition failWith :: "nat \<Rightarrow> string \<Rightarrow> (nat, JsError, 'a) Operation" where
  "failWith ms msg rt = (Inl (Error_new msg), rt\<lparr>clock := clock rt + int ms, ext := Suc (ext rt)\<rparr>)"

text \<open>
  The manager built for \<open>payment-api\<close>, the heap it leaves, and that heap after one
  failed and one successful call through the service's circuit breaker.
\<close>

definition paymentManager :: ResilienceManager where
  "paymentManager = fst (ResilienceManager_new [(''payment-api'', paymentConfig)] heap0)"

definition paymentHeap :: "nat Heap" where
  "paymentHeap = snd (ResilienceManager_new [(''payment-api'', paymentConfig)] heap0)"

definition failedHeap :: "nat Heap" where
  "failedHeap =
     snd (CircuitBreaker_execute ''payment-api''
            (invoke (failWith 20 ''ECONNRESET'' :: (nat, JsError, unit) Operation)) paymentHeap)"

definition mixedHeap :: "nat Heap" where
  "mixedHeap = snd (CircuitBreaker_execute ''payment-api'' (invoke (succeed 20 ())) failedHeap)"

text \<open>
  Five failing calls in a row through the breaker of \<open>payment-api\<close> (its threshold), and
  the heap they leave.
\<close>

definition fiveFailures :: "(nat, JsError, unit) Operation list" where
  "fiveFailures = replicate 5 (failWith 20 ''ECONNRESET'')"

definition openHeap :: "nat Heap" where
  "openHeap = snd (CircuitBreaker_run ''payment-api'' fiveFailures paymentHeap)"

text \<open>
  A breaker of \<open>part_000\<close> with the default options, around an operation that succeeds or
  fails as its argument says, and the state after five failing calls.
\<close>

definition dbBreaker :: CircuitBreaker0 where
  "dbBreaker = CircuitBreaker0_new ''db''
     \<lparr>optFailureThreshold = None, optResetTimeout = None, optMonitoringPeriod = None,
      optExpectedRecoveryTime = None\<rparr>"

definition query :: "bool \<Rightarrow> (nat, JsError, unit) Operation" where
  "query ok = (if ok then succeed 20 () else failWith 20 ''ECONNRESET'')"

definition dbOpen :: "CircuitBreaker0 \<times> nat Runtime" where
  "dbOpen = snd (CircuitBreaker0_run query (replicate 5 False) (dbBreaker, rt0))"

text \<open>
  The breaker of \<open>payment-api\<close> opened by four more failures after one failure and one
  success, and the two open breakers once their reset timeout has passed.
\<close>

definition mixedOpenHeap :: "nat Heap" where
  "mixedOpenHeap =
     snd (CircuitBreaker_run ''payment-api''
            (replicate 4 (failWith 20 ''ECONNRESET'' :: (nat, JsError, unit) Operation)) mixedHeap)"

definition mixedOpenLater :: "nat Heap" where
  "mixedOpenLater = mixedOpenHeap\<lparr>clock := 60120\<rparr>"

definition dbOpenLater :: "CircuitBreaker0 \<times> nat Runtime" where
  "dbOpenLater = (fst dbOpen, (snd dbOpen)\<lparr>clock := 60100\<rparr>)"

text \<open>
  Retry configurations for the examples: one whose first delay lies above the cap, and the
  policy of \<open>part_000\<close> with its defaults; a runtime whose next random numbers are one
  half and one quarter.
\<close>

definition slowStartRetry :: RetryConfig where
  "slowStartRetry =
     \<lparr>maxAttempts = 3, initialDelay = 2000, maxDelay = 1000, backoffMultiplier = 2,
      retryableErrors = [''ECONNRESET'']\<rparr>"

definition paymentRetry :: RetryConfig where
  "paymentRetry =
     \<lparr>maxAttempts = 3, initialDelay = 1000, maxDelay = 10000, backoffMultiplier = 2,
      retryableErrors = [''ECONNRESET'', ''ETIMEDOUT'']\<rparr>"

definition defaultRetry0 :: RetryPolicy0 where
  "defaultRetry0 = RetryPolicy0_new None None None None"

definition rtRandom :: "nat Runtime" where
  "rtRandom = rt0\<lparr>randoms := [1 / 2, 1 / 4]\<rparr>"

text \<open>An operation that rejects with \<open>undefined\<close>.\<close>

definition rejectUndefined :: "(nat, JsError, unit) Operation" where
  "rejectUndefined rt = (Inl JsUndefined, rt\<lparr>ext := Suc (ext rt)\<rparr>)"

text \<open>
  The bulkhead example of the specification: at most two running, at most one waiting.
  In \<open>twoRunning\<close> two callers have been admitted and their operations are in flight; in
  \<open>oneWaiting\<close> a third caller has called \<open>execute\<close> since.
\<close>

definition dbBulkheadHeap :: "nat Heap" where
  "dbBulkheadHeap =
     heap0\<lparr>bulkheadAt := (bulkheadAt heap0)(''db'' := Bulkhead_new \<lparr>maxConcurrent = 2, maxQueue = 1\<rparr>)\<rparr>"

definition twoRunning :: "nat Heap" where
  "twoRunning = Bulkhead_start ''db'' (Bulkhead_start ''db'' dbBulkheadHeap)"

definition oneWaiting :: "nat Heap" where
  "oneWaiting = snd (Bulkhead_execute ''db'' (invoke (succeed 20 ())) twoRunning)"

section \<open>The examples, evaluated\<close>

lemmas example_defs =
  fiveFailures_def numeral_eq_Suc CircuitBreaker_execute_def invoke_def failWith_def succeed_def
  Runtime.truncate_def CircuitBreaker_new_def Let_def
  CircuitBreaker_onSuccess_def CircuitBreaker_onFailure_def paymentHeap_def ResilienceManager_new_def
  initializeComponent_def paymentConfig_def heap0_def

lemma paymentManager_simps:
  "circuitBreakers paymentManager = [''payment-api'' \<mapsto> ''payment-api'']"
  "bulkheads paymentManager = [''payment-api'' \<mapsto> ''payment-api'']"
  "retryPolicies paymentManager = [''payment-api'' \<mapsto> the (retry paymentConfig)]"
  "timeoutManagers paymentManager = [''payment-api'' \<mapsto> the (timeout paymentConfig)]"
  by (simp_all add: paymentManager_def ResilienceManager_new_def initializeComponent_def paymentConfig_def)

lemma paymentHeap_breaker:
  "breakerAt paymentHeap ''payment-api'' =
     CircuitBreaker_new \<lparr>failureThreshold = 5, resetTimeout = 60000, monitoringPeriod = 30000\<rparr>"
  by (simp add: paymentHeap_def ResilienceManager_new_def initializeComponent_def paymentConfig_def)

lemma mixedHeap_breaker:
  "breakerAt mixedHeap ''payment-api'' =
     \<lparr>state = CLOSED, failureCount = 1, successCount = 1, lastFailureTime = Some 20,
      lastSuccessTime = Some 40, nextRetryTime = None,
      config = \<lparr>failureThreshold = 5, resetTimeout = 60000, monitoringPeriod = 30000\<rparr>\<rparr>"
  by (simp add: mixedHeap_def failedHeap_def CircuitBreaker_execute_def invoke_def succeed_def failWith_def
      Runtime.truncate_def paymentHeap_breaker CircuitBreaker_new_def Let_def
      CircuitBreaker_onSuccess_def CircuitBreaker_onFailure_def paymentHeap_def ResilienceManager_new_def initializeComponent_def paymentConfig_def heap0_def)

lemma failedHeap_breaker:
  "breakerAt failedHeap ''payment-api'' =
     \<lparr>state = CLOSED, failureCount = 1, successCount = 0, lastFailureTime = Some 20,
      lastSuccessTime = None, nextRetryTime = None,
      config = \<lparr>failureThreshold = 5, resetTimeout = 60000, monitoringPeriod = 30000\<rparr>\<rparr>"
  by (simp add: failedHeap_def example_defs)

lemma openHeap_breaker:
  "breakerAt openHeap ''payment-api'' =
     \<lparr>state = OPEN, failureCount = 5, successCount = 0, lastFailureTime = Some 100,
      lastSuccessTime = None, nextRetryTime = Some 60100,
      config = \<lparr>failureThreshold = 5, resetTimeout = 60000, monitoringPeriod = 30000\<rparr>\<rparr>"
  "clock openHeap = 100" "ext openHeap = 5"
  by (simp_all add: openHeap_def example_defs)

lemma fiveFailures_outcomes:
  "fst (CircuitBreaker_run ''payment-api'' fiveFailures paymentHeap) =
     replicate 5 (Inl (Error_new ''ECONNRESET''))"
  by (simp add: example_defs)

lemmas example0_defs =
  dbOpen_def dbBreaker_def query_def rt0_def CircuitBreaker0_new_def orDefault_def numeral_eq_Suc
  CircuitBreaker0_execute_def CircuitBreaker0_onFailure_def CircuitBreaker0_onSuccess_def
  CircuitBreaker0_shouldAttemptReset_def failWith_def succeed_def Let_def

lemma dbOpen_eval:
  "dbOpen = (dbBreaker\<lparr>state0 := OPEN, failureCount0 := 5, lastFailureTime0 := 100\<rparr>,
             rt0\<lparr>clock := 100, ext := 5\<rparr>)"
  "fst (CircuitBreaker0_run query (replicate 5 False) (dbBreaker, rt0)) =
     replicate 5 (Inl (Error_new ''ECONNRESET''))"
  by (simp_all add: example0_defs)

lemma mixedOpenHeap_breaker:
  "breakerAt mixedOpenHeap ''payment-api'' =
     \<lparr>state = OPEN, failureCount = 5, successCount = 1, lastFailureTime = Some 120,
      lastSuccessTime = Some 40, nextRetryTime = Some 60120,
      config = \<lparr>failureThreshold = 5, resetTimeout = 60000, monitoringPeriod = 30000\<rparr>\<rparr>"
  "fst (CircuitBreaker_run ''payment-api''
          (replicate 4 (failWith 20 ''ECONNRESET'' :: (nat, JsError, unit) Operation)) mixedHeap) =
     replicate 4 (Inl (Error_new ''ECONNRESET''))"
  by (simp_all add: mixedOpenHeap_def mixedHeap_def failedHeap_def example_defs)

lemma mixedOpenLater_breaker:
  "breakerAt mixedOpenLater ''payment-api'' =
     \<lparr>state = OPEN, failureCount = 5, successCount = 1, lastFailureTime = Some 120,
      lastSuccessTime = Some 40, nextRetryTime = Some 60120,
      config = \<lparr>failureThreshold = 5, resetTimeout = 60000, monitoringPeriod = 30000\<rparr>\<rparr>"
  "clock mixedOpenLater = 60120"
  by (simp_all add: mixedOpenLater_def mixedOpenHeap_def mixedHeap_def failedHeap_def example_defs)

lemma dbOpenLater_eval:
  "dbOpenLater = (dbBreaker\<lparr>state0 := OPEN, failureCount0 := 5, lastFailureTime0 := 100\<rparr>,
                  rt0\<lparr>clock := 60100, ext := 5\<rparr>)"
  by (simp add: dbOpenLater_def dbOpen_eval)

lemmas retry_example_defs =
  RetryPolicy_execute_def RetryPolicy_attempts.simps isRetryableError_def slowStartRetry_def
  paymentRetry_def failWith_def succeed_def rejectUndefined_def rt0_def rtRandom_def sleep_def Error_new_def
  RetryPolicy0_execute_def RetryPolicy0_attempts.simps RetryPolicy0_delay_def defaultRetry0_def
  RetryPolicy0_new_def Math_random_def Let_def

lemma slowStartRetry_eval:
  "RetryPolicy_execute slowStartRetry (failWith 20 ''ECONNRESET'' :: (nat, JsError, unit) Operation) rt0 =
     (Inl (Error_new ''ECONNRESET''), rt0\<lparr>clock := 3060, slept := [2000, 1000], ext := 3\<rparr>)"
  by (simp add: retry_example_defs)

lemma paymentRetry_eval:
  "RetryPolicy_execute paymentRetry (failWith 20 ''ECONNRESET'' :: (nat, JsError, unit) Operation) rt0 =
     (Inl (Error_new ''ECONNRESET''), rt0\<lparr>clock := 3060, slept := [1000, 2000], ext := 3\<rparr>)"
  "RetryPolicy_execute paymentRetry (failWith 20 ''EACCES'' :: (nat, JsError, unit) Operation) rt0 =
     (Inl (Error_new ''EACCES''), rt0\<lparr>clock := 20, ext := 1\<rparr>)"
  "RetryPolicy_execute paymentRetry rejectUndefined rt0 = (Inl TypeError_message, rt0\<lparr>ext := 1\<rparr>)"
  by (simp_all add: retry_example_defs)

lemma defaultRetry0_eval:
  "RetryPolicy0_execute defaultRetry0 (failWith 20 ''ECONNRESET'' :: (nat, JsError, unit) Operation) None rtRandom =
     (Inl (Error_new ''ECONNRESET''),
      rt0\<lparr>clock := 3160, slept := [1050, 2050], ext := 3\<rparr>)"
  "RetryPolicy0_execute defaultRetry0 (failWith 20 ''EACCES'' :: (nat, JsError, unit) Operation)
     (Some (\<lambda>error. message error = ''ECONNRESET'')) rtRandom =
     (Inl (Error_new ''EACCES''), rtRandom\<lparr>clock := 20, ext := 1\<rparr>)"
  by (simp_all add: retry_example_defs)

lemmas pipeline_example_defs =
  ResilienceManager_execute_def Bulkhead_execute_def Bulkhead_runOperation_def Bulkhead_start_def
  Bulkhead_finally_def Bulkhead_processQueue.simps Bulkhead_new_def TimeoutManager_execute_def
  RetryPolicy_execute_def RetryPolicy_attempts.simps isRetryableError_def sleep_def Error_new_def

lemma payment_slow_eval:
  "fst (ResilienceManager_execute paymentManager ''payment-api''
          (invoke (failWith 2000 ''ECONNRESET'' :: (nat, JsError, unit) Operation)) paymentHeap) =
     Settled (Inl (Error_new ''Operation timeout''))"
  "clock (snd (ResilienceManager_execute paymentManager ''payment-api''
          (invoke (failWith 2000 ''ECONNRESET'' :: (nat, JsError, unit) Operation)) paymentHeap)) = 9000"
  "ext (snd (ResilienceManager_execute paymentManager ''payment-api''
          (invoke (failWith 2000 ''ECONNRESET'' :: (nat, JsError, unit) Operation)) paymentHeap)) = 3"
  by (simp_all add: pipeline_example_defs paymentManager_simps example_defs)

lemma payment_fast_eval:
  "fst (ResilienceManager_execute paymentManager ''payment-api''
          (invoke (failWith 20 ''ECONNRESET'' :: (nat, JsError, unit) Operation)) paymentHeap) =
     Settled (Inl (Error_new ''ECONNRESET''))"
  "fst (ResilienceManager_execute paymentManager ''other''
          (invoke (succeed 20 ())) paymentHeap) = Settled (Inr ())"
  by (simp_all add: pipeline_example_defs paymentManager_simps example_defs)

lemmas bulkhead_example_defs =
  Bulkhead_execute_def Bulkhead_runOperation_def Bulkhead_start_def Bulkhead_finally_def
  Bulkhead_processQueue.simps Bulkhead_new_def dbBulkheadHeap_def twoRunning_def oneWaiting_def
  heap0_def invoke_def succeed_def failWith_def Runtime.truncate_def Let_def Error_new_def

lemma twoRunning_eval:
  "bulkheadAt twoRunning ''db'' = \<lparr>bconfig = \<lparr>maxConcurrent = 2, maxQueue = 1\<rparr>, running = 2, queue = []\<rparr>"
  "ext twoRunning = 0"
  by (simp_all add: bulkhead_example_defs)

lemma oneWaiting_eval:
  "fst (Bulkhead_execute ''db'' (invoke (succeed 20 ())) twoRunning) = Pending 0"
  "bulkheadAt oneWaiting ''db'' = \<lparr>bconfig = \<lparr>maxConcurrent = 2, maxQueue = 1\<rparr>, running = 2, queue = [0]\<rparr>"
  "ext oneWaiting = 0" "resolvedUndefined oneWaiting = []"
  by (simp_all add: bulkhead_example_defs)

section \<open>Rate limiter: facts and claims\<close>

subsection \<open>Facts about the rate limiter\<close>

lemma RateLimiter_new_inv: "RateLimiter_inv (RateLimiter_new maxReq win)"
  by (simp add: RateLimiter_inv_def RateLimiter_new_def)

lemma RateLimiter_acquire_inv:
  assumes inv: "RateLimiter_inv rl"
  shows "RateLimiter_inv (snd (RateLimiter_acquire now rl))"
proof -
  let ?kept = "filter (\<lambda>time. now - time < windowMs rl) (requests rl)"
  have "length ?kept \<le> length (requests rl)" by simp
  then have "int (length ?kept) \<le> int (length (requests rl))" by linarith
  with inv have le: "int (length ?kept) \<le> max 0 (maxRequests rl)"
    unfolding RateLimiter_inv_def by linarith
  have cfg: "maxRequests (snd (RateLimiter_acquire now rl)) = maxRequests rl"
    by (simp add: RateLimiter_acquire_def Let_def)
  show ?thesis
  proof (cases "maxRequests rl \<le> int (length ?kept)")
    case True
    then have "requests (snd (RateLimiter_acquire now rl)) = ?kept"
      by (simp add: RateLimiter_acquire_def Let_def)
    with cfg le show ?thesis by (simp add: RateLimiter_inv_def)
  next
    case False
    then have "requests (snd (RateLimiter_acquire now rl)) = ?kept @ [now]"
      by (simp add: RateLimiter_acquire_def Let_def)
    with cfg False show ?thesis by (simp add: RateLimiter_inv_def)
  qed
qed

lemma RateLimiter_acquire_past:
  assumes "\<forall>t \<in> set (requests rl). t \<le> now"
  shows "\<forall>t \<in> set (requests (snd (RateLimiter_acquire now rl))). t \<le> now"
  using assms by (auto simp: RateLimiter_acquire_def Let_def)

lemma RateLimiter_rejected_unchanged:
  assumes inv: "RateLimiter_inv rl" and rej: "fst (RateLimiter_acquire now rl) = Inl e"
  shows "snd (RateLimiter_acquire now rl) = rl"
proof -
  let ?kept = "filter (\<lambda>time. now - time < windowMs rl) (requests rl)"
  from rej have full: "maxRequests rl \<le> int (length ?kept)"
    by (auto simp: RateLimiter_acquire_def Let_def split: if_splits)
  have le: "length ?kept \<le> length (requests rl)" by simp
  have "length ?kept = length (requests rl)"
  proof (cases "maxRequests rl \<le> 0")
    case True
    with inv have "requests rl = []" by (simp add: RateLimiter_inv_def)
    then show ?thesis by simp
  next
    case False
    with inv have "int (length (requests rl)) \<le> maxRequests rl"
      by (simp add: RateLimiter_inv_def)
    with full le show ?thesis by linarith
  qed
  then have "?kept = requests rl"
    by (metis filter_True length_filter_less linorder_neq_iff filter_id_conv)
  with full show ?thesis by (simp add: RateLimiter_acquire_def Let_def)
qed

lemma RateLimiter_rejected_waitTime:
  assumes inv: "RateLimiter_inv rl" and rej: "fst (RateLimiter_acquire now rl) = Inl e"
  shows "e = RateLimitExceeded (case requests rl of [] \<Rightarrow> None
                                 | t # _ \<Rightarrow> Some (windowMs rl - (now - t)))"
proof -
  let ?kept = "filter (\<lambda>time. now - time < windowMs rl) (requests rl)"
  from RateLimiter_rejected_unchanged[OF inv rej]
  have "requests (snd (RateLimiter_acquire now rl)) = requests rl" by simp
  moreover from rej have "maxRequests rl \<le> int (length ?kept)"
    by (auto simp: RateLimiter_acquire_def Let_def split: if_splits)
  ultimately have k: "?kept = requests rl"
    by (simp add: RateLimiter_acquire_def Let_def)
  from rej show ?thesis
    unfolding RateLimiter_acquire_def Let_def
    by (auto simp: k split: if_splits list.splits)
qed

subsection \<open>Claims about the rate limiter\<close>

lemma acquire_all_rejected:
  "RateLimiter_inv rl \<Longrightarrow> list_all isl (fst (acquire_all nows rl)) \<Longrightarrow>
   acquire_all nows rl =
     (map (\<lambda>now. Inl (RateLimitExceeded (case requests rl of [] \<Rightarrow> None
                                            | t # _ \<Rightarrow> Some (windowMs rl - (now - t))))) nows, rl)"
proof (induction nows)
  case Nil
  then show ?case by simp
next
  case (Cons now nows)
  obtain r rl1 where a: "RateLimiter_acquire now rl = (r, rl1)" by (cases "RateLimiter_acquire now rl")
  from Cons.prems(2) a have "isl r" and rest: "list_all isl (fst (acquire_all nows rl1))"
    by (auto simp: Let_def split: prod.splits)
  then obtain e where e: "fst (RateLimiter_acquire now rl) = Inl e" using a by (cases r) auto
  from RateLimiter_rejected_unchanged[OF Cons.prems(1) e] a have same: "rl1 = rl" by simp
  from RateLimiter_rejected_waitTime[OF Cons.prems(1) e] e a
  have r: "r = Inl (RateLimitExceeded (case requests rl of [] \<Rightarrow> None
                                            | t # _ \<Rightarrow> Some (windowMs rl - (now - t))))" by simp
  from Cons.IH[OF Cons.prems(1)] rest same
  have "acquire_all nows rl = (map (\<lambda>now. Inl (RateLimitExceeded (case requests rl of [] \<Rightarrow> None
                                            | t # _ \<Rightarrow> Some (windowMs rl - (now - t))))) nows, rl)" by simp
  with a same r show ?case by simp
qed

text \<open>
  Claim C7, as stated, fails on a limiter built with a limit of zero, which the
  constructor accepts. Its array is always empty, so a rejected \<open>acquire\<close> has no oldest
  instant: the wait time spliced into the message is \<open>NaN\<close>, not a number that is at most
  \<open>windowMs\<close>, and \<open>acquire\<close> is rejected again after any number of windows.
\<close>

theorem RateLimiter_zero_limit_never_admits:
  "RateLimiter_acquire 0 (RateLimiter_new 0 1000) =
     (Inl (RateLimitExceeded None), RateLimiter_new 0 1000) \<and>
   RateLimiter_acquire 5000 (RateLimiter_new 0 1000) =
     (Inl (RateLimitExceeded None), RateLimiter_new 0 1000)"
  by (simp add: RateLimiter_acquire_def RateLimiter_new_def)

text \<open>
  Claim C7, amended. Let \<open>kept\<close> be the recorded instants whose age \<open>now - time\<close> is below
  \<open>windowMs\<close> (every instant older than \<open>now - windowMs\<close> is dropped, and so is one
  that is exactly \<open>windowMs\<close> old). On a limiter with a positive limit, in a state the
  class can reach (at most \<open>maxRequests\<close> instants, none in the future):
  if fewer than \<open>maxRequests\<close> instants are kept, \<open>acquire\<close> succeeds and records
  \<open>now\<close> after them; otherwise it throws the rate-limit error whose wait time is
  \<open>windowMs - (now - oldest)\<close> for the first kept instant, the wait time is at most
  \<open>windowMs\<close>, and every \<open>acquire\<close> issued once that wait is over (in particular once
  the whole window has passed) succeeds.
\<close>

theorem RateLimiter_acquire_sliding_window:
  assumes pos: "0 < maxRequests rl"
    and inv: "int (length (requests rl)) \<le> maxRequests rl"
    and past: "\<forall>t \<in> set (requests rl). t \<le> now"
  shows "(let kept = filter (\<lambda>time. now - time < windowMs rl) (requests rl) in
          if int (length kept) < maxRequests rl
          then RateLimiter_acquire now rl = (Inr (), rl\<lparr>requests := kept @ [now]\<rparr>)
          else kept \<noteq> [] \<and>
               RateLimiter_acquire now rl =
                 (Inl (RateLimitExceeded (Some (windowMs rl - (now - hd kept)))), rl\<lparr>requests := kept\<rparr>) \<and>
               windowMs rl - (now - hd kept) \<le> windowMs rl \<and>
               (\<forall>later. now + (windowMs rl - (now - hd kept)) \<le> later \<longrightarrow>
                  fst (RateLimiter_acquire later (rl\<lparr>requests := kept\<rparr>)) = Inr ()))"
proof -
  define kept where "kept = filter (\<lambda>time. now - time < windowMs rl) (requests rl)"
  show ?thesis
  proof (cases "int (length kept) < maxRequests rl")
    case True
    then show ?thesis using kept_def by (simp add: RateLimiter_acquire_def Let_def)
  next
    case False
    with pos have ne: "kept \<noteq> []" by auto
    then have "hd kept \<in> set kept" by simp
    then have "hd kept \<in> set (requests rl)" by (simp add: kept_def)
    with past have old: "hd kept \<le> now" by blast
    have res: "RateLimiter_acquire now rl =
                 (Inl (RateLimitExceeded (Some (windowMs rl - (now - hd kept)))), rl\<lparr>requests := kept\<rparr>)"
    proof -
      from ne obtain oldest rest where k: "kept = oldest # rest" by (cases kept) auto
      then have "filter (\<lambda>time. now - time < windowMs rl) (requests rl) = oldest # rest"
        by (simp add: kept_def)
      with False k show ?thesis by (simp add: RateLimiter_acquire_def Let_def kept_def)
    qed
    have later: "fst (RateLimiter_acquire later (rl\<lparr>requests := kept\<rparr>)) = Inr ()"
      if l: "now + (windowMs rl - (now - hd kept)) \<le> later" for later
    proof -
      let ?kept2 = "filter (\<lambda>time. later - time < windowMs rl) kept"
      have "\<not> (later - hd kept < windowMs rl)" using l by linarith
      then have "hd kept \<notin> set ?kept2" by simp
      with \<open>hd kept \<in> set kept\<close> have "?kept2 \<noteq> kept" by metis
      then have "length ?kept2 < length kept"
        by (metis filter_True length_filter_less linorder_neq_iff filter_id_conv)
      moreover have "length kept \<le> length (requests rl)" by (simp add: kept_def)
      ultimately have "int (length ?kept2) < maxRequests rl" using inv by linarith
      then show ?thesis by (simp add: RateLimiter_acquire_def Let_def)
    qed
    from False ne res old later show ?thesis unfolding Let_def kept_def[symmetric] by simp
  qed
qed

theorem RateLimiter_acquire_sliding_window_witness:
  "RateLimiter_acquire 5 rl5 = (Inl (RateLimitExceeded (Some 995)), rl5) \<and>
   fst (RateLimiter_acquire 1000 rl5) = Inr () \<and>
   RateLimiter_acquire 5 (rl5\<lparr>requests := [0, 1, 2, 3]\<rparr>) = (Inr (), rl5\<lparr>requests := [0, 1, 2, 3, 5]\<rparr>)"
  using RateLimiter_acquire_sliding_window[of rl5 5]
    RateLimiter_acquire_sliding_window[of "rl5\<lparr>requests := [0, 1, 2, 3]\<rparr>" 5]
  by (simp add: rl5_def Let_def)

text \<open>
  Claim C9. A rejected \<open>acquire\<close> records nothing: the array afterwards is the old one with
  the expired instants pruned, and \<open>now\<close> is not appended. In a reachable state
  (\<open>RateLimiter_inv\<close>) a run of \<open>acquire\<close> calls that are all rejected leaves the limiter
  exactly as it was, and each of them reports the wait until the same instant: the first
  recorded request plus \<open>windowMs\<close>.
\<close>

theorem RateLimiter_rejected_consumes_nothing:
  "(\<forall>e. fst (RateLimiter_acquire now rl) = Inl e \<longrightarrow>
      snd (RateLimiter_acquire now rl) =
        rl\<lparr>requests := filter (\<lambda>time. now - time < windowMs rl) (requests rl)\<rparr>) \<and>
   (RateLimiter_inv rl \<and> list_all isl (fst (acquire_all nows rl)) \<longrightarrow>
      acquire_all nows rl =
        (map (\<lambda>now. Inl (RateLimitExceeded (case requests rl of [] \<Rightarrow> None
                                               | t # _ \<Rightarrow> Some (windowMs rl - (now - t))))) nows, rl))"
proof (intro conjI allI impI)
  fix e assume "fst (RateLimiter_acquire now rl) = Inl e"
  then show "snd (RateLimiter_acquire now rl) =
        rl\<lparr>requests := filter (\<lambda>time. now - time < windowMs rl) (requests rl)\<rparr>"
    by (auto simp: RateLimiter_acquire_def Let_def split: if_splits)
next
  assume "RateLimiter_inv rl \<and> list_all isl (fst (acquire_all nows rl))"
  then show "acquire_all nows rl =
        (map (\<lambda>now. Inl (RateLimitExceeded (case requests rl of [] \<Rightarrow> None
                                               | t # _ \<Rightarrow> Some (windowMs rl - (now - t))))) nows, rl)"
    using acquire_all_rejected by blast
qed

theorem RateLimiter_rejected_consumes_nothing_witness:
  "RateLimiter_acquire 5 rl5 = (Inl (RateLimitExceeded (Some 995)), rl5) \<and>
   acquire_all [5, 6, 7] rl5 =
     ([Inl (RateLimitExceeded (Some 995)), Inl (RateLimitExceeded (Some 994)),
       Inl (RateLimitExceeded (Some 993))], rl5)"
  using RateLimiter_rejected_consumes_nothing[of 5 rl5 "[5, 6, 7]"]
  by (simp add: rl5_def Let_def RateLimiter_acquire_def RateLimiter_inv_def)

section \<open>Cache-aside: facts and claims\<close>

subsection \<open>Facts about the cache\<close>

lemma CacheAside_get_hit:
  assumes "map_of (cache c) key = Some cached" "clock rt < expiry cached"
  shows "CacheAside_get key fetchFunction (c, rt) = (Inr (data cached), (c, rt))"
  using assms by (simp add: CacheAside_get_def)

lemma CacheAside_get_miss:
  assumes "\<forall>cached. map_of (cache c) key = Some cached \<longrightarrow> expiry cached \<le> clock rt"
  shows "CacheAside_get key fetchFunction (c, rt) =
           (case fetchFunction rt of
              (Inl error, rt1) \<Rightarrow> (Inl error, (c, rt1))
            | (Inr d, rt1) \<Rightarrow> (Inr d, (CacheAside_set key d (clock rt1) c, rt1)))"
  using assms by (auto simp: CacheAside_get_def split: option.splits)

lemma CacheAside_set_stored:
  "map_of (cache (CacheAside_set key d now c)) key = Some \<lparr>data = d, expiry = now + ttlMs c\<rparr>"
  by (auto simp: CacheAside_set_def Let_def update_conv' split: list.splits)

text \<open>
  Two reads of a key within the time to live run the fetch function once: the second read
  returns the stored value whatever function it is given, and leaves the runtime alone.
\<close>

lemma CacheAside_get_twice:
  assumes miss: "\<forall>cached. map_of (cache c) key = Some cached \<longrightarrow> expiry cached \<le> clock rt"
    and ok: "fetchFunction rt = (Inr d, rt1)"
    and soon: "clock rt2 < clock rt1 + ttlMs c"
  shows "CacheAside_get key fetch2 (fst (snd (CacheAside_get key fetchFunction (c, rt))), rt2) =
           (Inr d, (CacheAside_set key d (clock rt1) c, rt2))"
proof -
  let ?c1 = "CacheAside_set key d (clock rt1) c"
  from CacheAside_get_miss[OF miss, of fetchFunction] ok
  have "fst (snd (CacheAside_get key fetchFunction (c, rt))) = ?c1" by simp
  moreover have "CacheAside_get key fetch2 (?c1, rt2) = (Inr d, (?c1, rt2))"
    using CacheAside_get_hit[of ?c1 key "\<lparr>data = d, expiry = clock rt1 + ttlMs c\<rparr>" rt2 fetch2]
      CacheAside_set_stored[of key d "clock rt1" c] soon by simp
  ultimately show ?thesis by simp
qed

text \<open>A full cache whose oldest key is not the empty string loses that entry on a store.\<close>

lemma CacheAside_set_evicts:
  assumes "maxSize c \<le> int (length (cache c))" "cache c = (firstKey, e) # rest" "firstKey \<noteq> []"
  shows "cache (CacheAside_set key d now c) =
           AList.update key \<lparr>data = d, expiry = now + ttlMs c\<rparr> (AList.delete firstKey rest)"
  using assms by (simp add: CacheAside_set_def Let_def)

subsection \<open>Claims about the cache\<close>

text \<open>
  Claim C8, at the input where the code departs from it. A cache of capacity one first
  stores the empty string as a key and then the key \<open>a\<close>. The cache is full at the second
  store, yet the oldest entry stays: the guard \<open>if (firstKey)\<close> is false for the empty
  string, and the cache ends with two entries. (With any other oldest key the entry is
  evicted, \<open>CacheAside_set_evicts\<close>; the hit, the miss and the two reads within the time
  to live are \<open>CacheAside_get_hit\<close>, \<open>CacheAside_get_miss\<close> and \<open>CacheAside_get_twice\<close>.)
\<close>

theorem CacheAside_set_keeps_empty_key:
  "cache (fst (snd (CacheAside_get ''a'' (fetchOk (2::nat))
            (fst (snd (CacheAside_get [] (fetchOk 1) (CacheAside_new None (Some 1), rt0))), rt0)))) =
     [([], \<lparr>data = 1, expiry = 300000\<rparr>), (''a'', \<lparr>data = 2, expiry = 300000\<rparr>)]"
  by (simp add: CacheAside_get_def CacheAside_set_def CacheAside_new_def fetchOk_def rt0_def Let_def)



section \<open>Circuit breakers: facts and claims\<close>

subsection \<open>The circuit breaker of \<open>resilience.ts\<close>\<close>

lemma invoke_frame:
  "breakerAt (snd (invoke operation h)) = breakerAt h"
  "bulkheadAt (snd (invoke operation h)) = bulkheadAt h"
  "promises (snd (invoke operation h)) = promises h"
  "resolvedUndefined (snd (invoke operation h)) = resolvedUndefined h"
  by (simp_all add: invoke_def Let_def split: prod.splits)

lemma invoke_result:
  "fst (invoke operation h) = fst (operation (Runtime.truncate h))"
  "clock (snd (invoke operation h)) = clock (snd (operation (Runtime.truncate h)))"
  "ext (snd (invoke operation h)) = ext (snd (operation (Runtime.truncate h)))"
  by (simp_all add: invoke_def Let_def split: prod.splits)

text \<open>
  A call that is admitted returns what the operation returns and then counts the outcome.
\<close>

lemma CircuitBreaker_execute_admitted:
  assumes "state (breakerAt h this) \<noteq> OPEN"
  shows "fst (CircuitBreaker_execute this (invoke operation) h) = fst (invoke operation h)"
    and "breakerAt (snd (CircuitBreaker_execute this (invoke operation) h)) this =
          (case fst (invoke operation h) of
             Inr _ \<Rightarrow> CircuitBreaker_onSuccess (clock (snd (invoke operation h))) (breakerAt h this)
           | Inl _ \<Rightarrow> CircuitBreaker_onFailure (clock (snd (invoke operation h))) (breakerAt h this))"
    and "clock (snd (CircuitBreaker_execute this (invoke operation) h)) = clock (snd (invoke operation h))"
  using assms invoke_frame(1)[of operation h]
  by (auto simp: CircuitBreaker_execute_def Let_def split: prod.splits sum.splits)

lemma CircuitBreaker_execute_open:
  assumes "state (breakerAt h this) = OPEN" "nextRetryTime (breakerAt h this) = Some t" "clock h < t"
  shows "CircuitBreaker_execute this operation h = (Inl (Error_new ''Circuit breaker is OPEN''), h)"
  using assms by (simp add: CircuitBreaker_execute_def Let_def)

lemma CircuitBreaker_execute_half_open:
  assumes "state (breakerAt h this) = OPEN" "nextRetryTime (breakerAt h this) = Some t" "t \<le> clock h"
  shows "fst (CircuitBreaker_execute this (invoke operation) h) = fst (operation (Runtime.truncate h))"
    and "breakerAt (snd (CircuitBreaker_execute this (invoke operation) h)) this =
          (case fst (operation (Runtime.truncate h)) of
             Inr _ \<Rightarrow> CircuitBreaker_onSuccess (clock (snd (operation (Runtime.truncate h)))) ((breakerAt h this)\<lparr>state := HALF_OPEN\<rparr>)
           | Inl _ \<Rightarrow> CircuitBreaker_onFailure (clock (snd (operation (Runtime.truncate h)))) ((breakerAt h this)\<lparr>state := HALF_OPEN\<rparr>))"
  using assms
  by (auto simp: CircuitBreaker_execute_def Let_def invoke_def Runtime.truncate_def split: prod.splits sum.splits)

lemma invoke_frameD:
  "invoke operation h = (r, h') \<Longrightarrow> breakerAt h' = breakerAt h"
  using invoke_frame(1)[of operation h] by simp

lemma CircuitBreaker_execute_config:
  "config (breakerAt (snd (CircuitBreaker_execute this (invoke operation) h)) this) = config (breakerAt h this)"
  by (auto simp: CircuitBreaker_execute_def Let_def CircuitBreaker_onSuccess_def CircuitBreaker_onFailure_def
      split: prod.splits sum.splits dest!: invoke_frameD)

lemma CircuitBreaker_closed_failure:
  assumes "state (breakerAt h this) = CLOSED" "isl (fst (CircuitBreaker_execute this (invoke operation) h))"
  shows "breakerAt (snd (CircuitBreaker_execute this (invoke operation) h)) this =
           CircuitBreaker_onFailure (clock (snd (CircuitBreaker_execute this (invoke operation) h))) (breakerAt h this)"
  using assms CircuitBreaker_execute_admitted[of h this operation]
  by (auto split: sum.splits)

lemma CircuitBreaker_closed_success:
  assumes "state (breakerAt h this) = CLOSED" "\<not> isl (fst (CircuitBreaker_execute this (invoke operation) h))"
  shows "breakerAt (snd (CircuitBreaker_execute this (invoke operation) h)) this =
           CircuitBreaker_onSuccess (clock (snd (CircuitBreaker_execute this (invoke operation) h))) (breakerAt h this)"
  using assms CircuitBreaker_execute_admitted[of h this operation]
  by (auto split: sum.splits)

lemma CircuitBreaker_run_failures:
  assumes "state (breakerAt h this) = CLOSED"
    and "int (failureCount (breakerAt h this) + length ops) = failureThreshold (config (breakerAt h this))"
    and "ops \<noteq> []"
    and "list_all isl (fst (CircuitBreaker_run this ops h))"
  shows "state (breakerAt (snd (CircuitBreaker_run this ops h)) this) = OPEN \<and>
         failureCount (breakerAt (snd (CircuitBreaker_run this ops h)) this) =
           failureCount (breakerAt h this) + length ops \<and>
         nextRetryTime (breakerAt (snd (CircuitBreaker_run this ops h)) this) =
           Some (clock (snd (CircuitBreaker_run this ops h)) + resetTimeout (config (breakerAt h this)))"
  using assms
proof (induction ops arbitrary: h)
  case Nil
  then show ?case by simp
next
  case (Cons op ops)
  let ?res = "CircuitBreaker_execute this (invoke op) h"
  let ?h1 = "snd ?res"
  from Cons.prems(4) have f: "isl (fst ?res)" and rest: "list_all isl (fst (CircuitBreaker_run this ops ?h1))"
    by (auto simp: Let_def split: prod.splits)
  have cb1: "breakerAt ?h1 this = CircuitBreaker_onFailure (clock ?h1) (breakerAt h this)"
    using CircuitBreaker_closed_failure[OF Cons.prems(1) f] .
  have run: "snd (CircuitBreaker_run this (op # ops) h) = snd (CircuitBreaker_run this ops ?h1)"
    by (simp add: Let_def split: prod.splits)
  show ?case
  proof (cases "ops = []")
    case True
    with Cons.prems(2) have "failureThreshold (config (breakerAt h this)) = int (failureCount (breakerAt h this)) + 1"
      by simp
    with cb1 True run show ?thesis by (simp add: CircuitBreaker_onFailure_def Let_def)
  next
    case False
    with Cons.prems(2) have lt: "int (failureCount (breakerAt h this)) + 1 < failureThreshold (config (breakerAt h this))"
      by (cases ops) auto
    with cb1 Cons.prems(1) have st: "state (breakerAt ?h1 this) = CLOSED"
      and fc: "failureCount (breakerAt ?h1 this) = failureCount (breakerAt h this) + 1"
      and cf: "config (breakerAt ?h1 this) = config (breakerAt h this)"
      by (simp_all add: CircuitBreaker_onFailure_def Let_def)
    from Cons.prems(2) fc cf
    have len: "int (failureCount (breakerAt ?h1 this) + length ops) = failureThreshold (config (breakerAt ?h1 this))"
      by simp
    from Cons.IH[OF st len False rest] run fc cf show ?thesis by simp
  qed
qed

text \<open>
  Three successful calls in a row, the first of them admitted after the reset timeout,
  leave the breaker closed with no failure counted.
\<close>

lemma CircuitBreaker_three_successes:
  assumes o: "state (breakerAt h this) = OPEN" "nextRetryTime (breakerAt h this) = Some t" "t \<le> clock h"
    and ok: "list_all (\<lambda>r. \<not> isl r) (fst (CircuitBreaker_run this [o1, o2, o3] h))"
  shows "state (breakerAt (snd (CircuitBreaker_run this [o1, o2, o3] h)) this) = CLOSED"
    and "failureCount (breakerAt (snd (CircuitBreaker_run this [o1, o2, o3] h)) this) = 0"
proof -
  let ?r1 = "CircuitBreaker_execute this (invoke o1) h"
  let ?r2 = "CircuitBreaker_execute this (invoke o2) (snd ?r1)"
  let ?r3 = "CircuitBreaker_execute this (invoke o3) (snd ?r2)"
  have run: "snd (CircuitBreaker_run this [o1, o2, o3] h) = snd ?r3"
    by (simp add: Let_def split: prod.splits)
  from ok have s: "\<not> isl (fst ?r1)" "\<not> isl (fst ?r2)" "\<not> isl (fst ?r3)"
    by (auto simp: Let_def split: prod.splits)
  from s(1) CircuitBreaker_execute_half_open[OF o, of o1]
  have c1: "state (breakerAt (snd ?r1) this) = CLOSED" "failureCount (breakerAt (snd ?r1) this) = 0"
    by (auto simp: CircuitBreaker_onSuccess_def Let_def split: sum.splits)
  from CircuitBreaker_closed_success[OF c1(1) s(2)] c1
  have c2: "state (breakerAt (snd ?r2) this) = CLOSED" "failureCount (breakerAt (snd ?r2) this) = 0"
    by (simp_all add: CircuitBreaker_onSuccess_def Let_def)
  from CircuitBreaker_closed_success[OF c2(1) s(3)] c2
  have c3: "state (breakerAt (snd ?r3) this) = CLOSED" "failureCount (breakerAt (snd ?r3) this) = 0"
    by (simp_all add: CircuitBreaker_onSuccess_def Let_def)
  from c3 run show "state (breakerAt (snd (CircuitBreaker_run this [o1, o2, o3] h)) this) = CLOSED"
    and "failureCount (breakerAt (snd (CircuitBreaker_run this [o1, o2, o3] h)) this) = 0"
    by simp_all
qed

lemma CircuitBreaker_new_inv: "CircuitBreaker_inv (CircuitBreaker_new cfg)"
  by (simp add: CircuitBreaker_inv_def CircuitBreaker_new_def)

lemma CircuitBreaker_execute_inv:
  assumes "CircuitBreaker_inv (breakerAt h this)"
  shows "CircuitBreaker_inv (breakerAt (snd (CircuitBreaker_execute this (invoke operation) h)) this)"
  using assms
  by (auto simp: CircuitBreaker_execute_def Let_def CircuitBreaker_inv_def
      CircuitBreaker_onSuccess_def CircuitBreaker_onFailure_def
      split: prod.splits sum.splits dest!: invoke_frameD)

lemma CircuitBreaker_execute_after_timeout:
  assumes "state (breakerAt h this) = OPEN" "nextRetryTime (breakerAt h this) = Some t" "t \<le> clock h"
  shows "CircuitBreaker_execute this wrapped h =
           (case wrapped (h\<lparr>breakerAt := (breakerAt h)(this := (breakerAt h this)\<lparr>state := HALF_OPEN\<rparr>)\<rparr>) of
              (Inr result, h2) \<Rightarrow>
                (Inr result, h2\<lparr>breakerAt := (breakerAt h2)
                        (this := CircuitBreaker_onSuccess (clock h2) (breakerAt h2 this))\<rparr>)
            | (Inl error, h2) \<Rightarrow>
                (Inl error, h2\<lparr>breakerAt := (breakerAt h2)
                        (this := CircuitBreaker_onFailure (clock h2) (breakerAt h2 this))\<rparr>))"
  using assms by (auto simp: CircuitBreaker_execute_def Let_def split: prod.splits sum.splits)

subsection \<open>The circuit breaker of \<open>part_000\<close>\<close>

lemma CircuitBreaker0_execute_admitted:
  assumes "state0 cb \<noteq> OPEN"
  shows "CircuitBreaker0_execute operation args (cb, rt) =
           (case operation args rt of
              (Inr result, rt1) \<Rightarrow> (Inr result, (CircuitBreaker0_onSuccess cb, rt1))
            | (Inl error, rt1) \<Rightarrow> (Inl error, (CircuitBreaker0_onFailure (clock rt1) cb, rt1)))"
  using assms by (auto simp: CircuitBreaker0_execute_def Let_def split: prod.splits sum.splits)

lemma CircuitBreaker0_execute_open:
  assumes "state0 cb = OPEN" "clock rt - lastFailureTime0 cb < resetTimeout0 cb"
  shows "CircuitBreaker0_execute operation args (cb, rt) = (Inl (CircuitBreaker0_openError cb), (cb, rt))"
  using assms by (simp add: CircuitBreaker0_execute_def CircuitBreaker0_shouldAttemptReset_def)

lemma CircuitBreaker0_execute_half_open:
  assumes "state0 cb = OPEN" "resetTimeout0 cb \<le> clock rt - lastFailureTime0 cb"
  shows "CircuitBreaker0_execute operation args (cb, rt) =
           (case operation args rt of
              (Inr result, rt1) \<Rightarrow>
                (Inr result, (CircuitBreaker0_onSuccess (cb\<lparr>state0 := HALF_OPEN, successCount0 := 0\<rparr>), rt1))
            | (Inl error, rt1) \<Rightarrow>
                (Inl error, (CircuitBreaker0_onFailure (clock rt1) (cb\<lparr>state0 := HALF_OPEN, successCount0 := 0\<rparr>), rt1)))"
  using assms
  by (auto simp: CircuitBreaker0_execute_def CircuitBreaker0_shouldAttemptReset_def Let_def
      split: prod.splits sum.splits)

lemma CircuitBreaker0_closed_failure:
  assumes "state0 cb = CLOSED" "CircuitBreaker0_execute operation args (cb, rt) = (Inl e, (cb', rt'))"
  shows "cb' = CircuitBreaker0_onFailure (clock rt') cb"
  using assms CircuitBreaker0_execute_admitted[of cb operation args rt]
  by (auto split: prod.splits sum.splits)

lemma CircuitBreaker0_run_failures:
  assumes "state0 cb = CLOSED"
    and "int (failureCount0 cb + length argss) = failureThreshold0 cb"
    and "argss \<noteq> []"
    and "list_all isl (fst (CircuitBreaker0_run operation argss (cb, rt)))"
  shows "state0 (fst (snd (CircuitBreaker0_run operation argss (cb, rt)))) = OPEN \<and>
         failureCount0 (fst (snd (CircuitBreaker0_run operation argss (cb, rt)))) =
           failureCount0 cb + length argss \<and>
         lastFailureTime0 (fst (snd (CircuitBreaker0_run operation argss (cb, rt)))) =
           clock (snd (snd (CircuitBreaker0_run operation argss (cb, rt))))"
  using assms
proof (induction argss arbitrary: cb rt)
  case Nil
  then show ?case by simp
next
  case (Cons args argss)
  obtain r cb1 rt1 where ex: "CircuitBreaker0_execute operation args (cb, rt) = (r, (cb1, rt1))"
    by (metis surj_pair)
  from Cons.prems(4) ex have f: "isl r" and rest: "list_all isl (fst (CircuitBreaker0_run operation argss (cb1, rt1)))"
    by (auto simp: Let_def split: prod.splits)
  then obtain e where "r = Inl e" by (cases r) auto
  with ex have "CircuitBreaker0_execute operation args (cb, rt) = (Inl e, (cb1, rt1))" by simp
  from CircuitBreaker0_closed_failure[OF Cons.prems(1) this]
  have cb1: "cb1 = CircuitBreaker0_onFailure (clock rt1) cb" .
  have run: "snd (CircuitBreaker0_run operation (args # argss) (cb, rt)) =
             snd (CircuitBreaker0_run operation argss (cb1, rt1))"
    using ex by (simp add: Let_def split: prod.splits)
  show ?case
  proof (cases "argss = []")
    case True
    with Cons.prems(2) have "failureThreshold0 cb = int (failureCount0 cb) + 1" by simp
    with cb1 True run Cons.prems(1) show ?thesis by (simp add: CircuitBreaker0_onFailure_def Let_def)
  next
    case False
    with Cons.prems(2) have lt: "int (failureCount0 cb) + 1 < failureThreshold0 cb"
      by (cases argss) auto
    with cb1 Cons.prems(1) have st: "state0 cb1 = CLOSED"
      and fc: "failureCount0 cb1 = failureCount0 cb + 1"
      and cf: "failureThreshold0 cb1 = failureThreshold0 cb"
      by (simp_all add: CircuitBreaker0_onFailure_def Let_def)
    from Cons.prems(2) fc cf
    have len: "int (failureCount0 cb1 + length argss) = failureThreshold0 cb1" by simp
    from Cons.IH[OF st len False rest] run fc show ?thesis by simp
  qed
qed

text \<open>
  Once the reset timeout has passed, three successful calls in a row close the breaker;
  the success counter goes from 0 to 3 and stays there.
\<close>

lemma CircuitBreaker0_three_successes:
  assumes "state0 cb = OPEN" "resetTimeout0 cb \<le> clock rt - lastFailureTime0 cb"
    and "list_all (\<lambda>r. \<not> isl r) (fst (CircuitBreaker0_run operation [a1, a2, a3] (cb, rt)))"
  shows "state0 (fst (snd (CircuitBreaker0_run operation [a1] (cb, rt)))) = HALF_OPEN"
    and "successCount0 (fst (snd (CircuitBreaker0_run operation [a1] (cb, rt)))) = 1"
    and "state0 (fst (snd (CircuitBreaker0_run operation [a1, a2] (cb, rt)))) = HALF_OPEN"
    and "successCount0 (fst (snd (CircuitBreaker0_run operation [a1, a2] (cb, rt)))) = 2"
    and "state0 (fst (snd (CircuitBreaker0_run operation [a1, a2, a3] (cb, rt)))) = CLOSED"
    and "failureCount0 (fst (snd (CircuitBreaker0_run operation [a1, a2, a3] (cb, rt)))) = 0"
    and "successCount0 (fst (snd (CircuitBreaker0_run operation [a1, a2, a3] (cb, rt)))) = 3"
proof -
  obtain r1 cb1 rt1 where e1: "CircuitBreaker0_execute operation a1 (cb, rt) = (r1, (cb1, rt1))"
    by (metis surj_pair)
  obtain r2 cb2 rt2 where e2: "CircuitBreaker0_execute operation a2 (cb1, rt1) = (r2, (cb2, rt2))"
    by (metis surj_pair)
  obtain r3 cb3 rt3 where e3: "CircuitBreaker0_execute operation a3 (cb2, rt2) = (r3, (cb3, rt3))"
    by (metis surj_pair)
  from assms(3) e1 e2 e3 have ok: "\<not> isl r1" "\<not> isl r2" "\<not> isl r3" by (simp_all add: Let_def)
  from e1 ok(1) CircuitBreaker0_execute_half_open[OF assms(1,2), of operation a1]
  have c1: "cb1 = CircuitBreaker0_onSuccess (cb\<lparr>state0 := HALF_OPEN, successCount0 := 0\<rparr>)"
    by (auto split: prod.splits sum.splits)
  then have s1: "state0 cb1 = HALF_OPEN" "successCount0 cb1 = 1"
    by (simp_all add: CircuitBreaker0_onSuccess_def Let_def)
  from e2 ok(2) s1(1) CircuitBreaker0_execute_admitted[of cb1 operation a2 rt1]
  have c2: "cb2 = CircuitBreaker0_onSuccess cb1" by (auto split: prod.splits sum.splits)
  with s1 have s2: "state0 cb2 = HALF_OPEN" "successCount0 cb2 = 2"
    by (simp_all add: CircuitBreaker0_onSuccess_def Let_def)
  from e3 ok(3) s2(1) CircuitBreaker0_execute_admitted[of cb2 operation a3 rt2]
  have c3: "cb3 = CircuitBreaker0_onSuccess cb2" by (auto split: prod.splits sum.splits)
  with s2 have s3: "state0 cb3 = CLOSED" "successCount0 cb3 = 3" "failureCount0 cb3 = 0"
    by (simp_all add: CircuitBreaker0_onSuccess_def Let_def)
  from e1 s1 show "state0 (fst (snd (CircuitBreaker0_run operation [a1] (cb, rt)))) = HALF_OPEN"
    "successCount0 (fst (snd (CircuitBreaker0_run operation [a1] (cb, rt)))) = 1" by simp_all
  from e1 e2 s2 show "state0 (fst (snd (CircuitBreaker0_run operation [a1, a2] (cb, rt)))) = HALF_OPEN"
    "successCount0 (fst (snd (CircuitBreaker0_run operation [a1, a2] (cb, rt)))) = 2" by simp_all
  from e1 e2 e3 s3 show "state0 (fst (snd (CircuitBreaker0_run operation [a1, a2, a3] (cb, rt)))) = CLOSED"
    "failureCount0 (fst (snd (CircuitBreaker0_run operation [a1, a2, a3] (cb, rt)))) = 0"
    "successCount0 (fst (snd (CircuitBreaker0_run operation [a1, a2, a3] (cb, rt)))) = 3" by simp_all
qed

subsection \<open>Claims about the closed and the open state\<close>

text \<open>
  Claim C2. The breaker of \<open>resilience.ts\<close> does not do what the claim says at the success of
  a closed breaker. After one failed call the breaker of \<open>payment-api\<close> counts one
  failure; a successful call then leaves \<open>failureCount\<close> at one, where the claim has it
  back at zero: \<open>onSuccess\<close> zeroes it only when the breaker is half open. Failures that are
  not consecutive therefore add up: four more failed calls open the breaker, whose
  threshold is five, although no five calls in a row have failed. The breaker of
  \<open>part_000\<close> counts no failure after a failed and a successful call, and the architecture
  notes of the repository give the threshold as five consecutive failures.
\<close>

theorem CircuitBreaker_success_keeps_failureCount:
  "state (breakerAt failedHeap ''payment-api'') = CLOSED \<and>
   failureCount (breakerAt failedHeap ''payment-api'') = 1 \<and>
   fst (CircuitBreaker_execute ''payment-api'' (invoke (succeed 20 ())) failedHeap) = Inr () \<and>
   failureCount (breakerAt (snd (CircuitBreaker_execute ''payment-api'' (invoke (succeed 20 ())) failedHeap))
                   ''payment-api'') = 1 \<and>
   fst (CircuitBreaker_run ''payment-api''
          (replicate 4 (failWith 20 ''ECONNRESET'' :: (nat, JsError, unit) Operation)) mixedHeap) =
     replicate 4 (Inl (Error_new ''ECONNRESET'')) \<and>
   state (breakerAt mixedOpenHeap ''payment-api'') = OPEN \<and>
   failureCount0 (fst (snd (CircuitBreaker0_run query [False, True] (dbBreaker, rt0)))) = 0"
  by (simp add: mixedOpenHeap_breaker failedHeap_breaker)
     (simp add: failedHeap_def example_defs example0_defs)

text \<open>
  The other parts of the claim hold of both circuit breakers. In the closed state a failed
  \<open>execute\<close> adds one to \<open>failureCount\<close>, and when the new count reaches \<open>failureThreshold\<close>
  the breaker opens, so \<open>failureThreshold\<close> failed calls in a row on a breaker with a count
  of zero open it. The breaker of \<open>resilience.ts\<close> then sets \<open>nextRetryTime\<close> to
  \<open>now + resetTimeout\<close>, the one of \<open>part_000\<close> sets \<open>lastFailureTime\<close> to \<open>now\<close>.
  While the breaker is open and that time has not passed, \<open>execute\<close> fails with the
  circuit-open error and leaves everything as it is, whatever the operation: the
  operation is not invoked. In the breaker of \<open>part_000\<close> a successful \<open>execute\<close> zeroes
  \<open>failureCount\<close>.
\<close>

theorem CircuitBreaker_closed_then_open:
  fixes h :: "'x Heap" and this :: ref
    and operation :: "('x, JsError, 'a) Operation"
    and ops :: "('x, JsError, 'a) Operation list"
    and wrapped :: "('x, 'a) Wrapped"
    and cb0 :: CircuitBreaker0 and rt :: "'y Runtime"
    and operation0 :: "'args \<Rightarrow> ('y, JsError, 'b) Operation"
    and args :: 'args and argss :: "'args list"
  defines "cb \<equiv> breakerAt h this"
    and "res \<equiv> CircuitBreaker_execute this (invoke operation) h"
    and "run \<equiv> CircuitBreaker_run this ops h"
    and "res0 \<equiv> CircuitBreaker0_execute operation0 args (cb0, rt)"
    and "run0 \<equiv> CircuitBreaker0_run operation0 argss (cb0, rt)"
  shows
    "(state cb = CLOSED \<longrightarrow>
        (isl (fst res) \<longrightarrow>
           failureCount (breakerAt (snd res) this) = failureCount cb + 1 \<and>
           (if failureThreshold (config cb) \<le> int (failureCount cb) + 1
            then state (breakerAt (snd res) this) = OPEN \<and>
                 nextRetryTime (breakerAt (snd res) this) =
                   Some (clock (snd res) + resetTimeout (config cb))
            else state (breakerAt (snd res) this) = CLOSED)) \<and>
        (ops \<noteq> [] \<and> failureCount cb = 0 \<and> int (length ops) = failureThreshold (config cb) \<and>
         list_all isl (fst run) \<longrightarrow>
           state (breakerAt (snd run) this) = OPEN \<and>
           nextRetryTime (breakerAt (snd run) this) =
             Some (clock (snd run) + resetTimeout (config cb)))) \<and>
     (state cb = OPEN \<and> nextRetryTime cb = Some t \<and> clock h < t \<longrightarrow>
        CircuitBreaker_execute this wrapped h = (Inl (Error_new ''Circuit breaker is OPEN''), h)) \<and>
     (state0 cb0 = CLOSED \<longrightarrow>
        (isl (fst res0) \<longrightarrow>
           failureCount0 (fst (snd res0)) = failureCount0 cb0 + 1 \<and>
           lastFailureTime0 (fst (snd res0)) = clock (snd (snd res0)) \<and>
           state0 (fst (snd res0)) =
             (if failureThreshold0 cb0 \<le> int (failureCount0 cb0) + 1 then OPEN else CLOSED)) \<and>
        (\<not> isl (fst res0) \<longrightarrow>
           failureCount0 (fst (snd res0)) = 0 \<and> state0 (fst (snd res0)) = CLOSED) \<and>
        (argss \<noteq> [] \<and> failureCount0 cb0 = 0 \<and> int (length argss) = failureThreshold0 cb0 \<and>
         list_all isl (fst run0) \<longrightarrow>
           state0 (fst (snd run0)) = OPEN \<and>
           lastFailureTime0 (fst (snd run0)) = clock (snd (snd run0)))) \<and>
     (state0 cb0 = OPEN \<and> clock rt - lastFailureTime0 cb0 < resetTimeout0 cb0 \<longrightarrow>
        CircuitBreaker0_execute operation0 args (cb0, rt) =
          (Inl (CircuitBreaker0_openError cb0), (cb0, rt)))"
proof -
  have r_fail: "failureCount (breakerAt (snd res) this) = failureCount cb + 1 \<and>
           (if failureThreshold (config cb) \<le> int (failureCount cb) + 1
            then state (breakerAt (snd res) this) = OPEN \<and>
                 nextRetryTime (breakerAt (snd res) this) =
                   Some (clock (snd res) + resetTimeout (config cb))
            else state (breakerAt (snd res) this) = CLOSED)"
    if "state cb = CLOSED" "isl (fst res)"
    using CircuitBreaker_closed_failure[of h this operation] that
    unfolding cb_def res_def by (simp add: CircuitBreaker_onFailure_def Let_def)
  have r_run: "state (breakerAt (snd run) this) = OPEN \<and>
           nextRetryTime (breakerAt (snd run) this) =
             Some (clock (snd run) + resetTimeout (config cb))"
    if "state cb = CLOSED" "ops \<noteq> [] \<and> failureCount cb = 0 \<and> int (length ops) = failureThreshold (config cb) \<and>
         list_all isl (fst run)"
    using CircuitBreaker_run_failures[of h this ops] that
    unfolding cb_def run_def by simp
  have r_open: "CircuitBreaker_execute this wrapped h = (Inl (Error_new ''Circuit breaker is OPEN''), h)"
    if "state cb = OPEN \<and> nextRetryTime cb = Some t \<and> clock h < t"
    using CircuitBreaker_execute_open[of h this t wrapped] that unfolding cb_def by simp
  have p_fail: "failureCount0 (fst (snd res0)) = failureCount0 cb0 + 1 \<and>
           lastFailureTime0 (fst (snd res0)) = clock (snd (snd res0)) \<and>
           state0 (fst (snd res0)) =
             (if failureThreshold0 cb0 \<le> int (failureCount0 cb0) + 1 then OPEN else CLOSED)"
    if "state0 cb0 = CLOSED" "isl (fst res0)"
    using CircuitBreaker0_execute_admitted[of cb0 operation0 args rt] that
    unfolding res0_def
    by (auto simp: CircuitBreaker0_onFailure_def Let_def split: prod.splits sum.splits)
  have p_succ: "failureCount0 (fst (snd res0)) = 0 \<and> state0 (fst (snd res0)) = CLOSED"
    if "state0 cb0 = CLOSED" "\<not> isl (fst res0)"
    using CircuitBreaker0_execute_admitted[of cb0 operation0 args rt] that
    unfolding res0_def
    by (auto simp: CircuitBreaker0_onSuccess_def Let_def split: prod.splits sum.splits)
  have p_run: "state0 (fst (snd run0)) = OPEN \<and>
           lastFailureTime0 (fst (snd run0)) = clock (snd (snd run0))"
    if "state0 cb0 = CLOSED" "argss \<noteq> [] \<and> failureCount0 cb0 = 0 \<and> int (length argss) = failureThreshold0 cb0 \<and>
         list_all isl (fst run0)"
    using CircuitBreaker0_run_failures[of cb0 argss operation0 rt] that
    unfolding run0_def by simp
  have p_open: "CircuitBreaker0_execute operation0 args (cb0, rt) =
          (Inl (CircuitBreaker0_openError cb0), (cb0, rt))"
    if "state0 cb0 = OPEN \<and> clock rt - lastFailureTime0 cb0 < resetTimeout0 cb0"
    using CircuitBreaker0_execute_open[of cb0 rt operation0 args] that by simp
  from r_fail r_run r_open p_fail p_succ p_run p_open show ?thesis by blast
qed

theorem CircuitBreaker_closed_then_open_witness:
  "state (breakerAt paymentHeap ''payment-api'') = CLOSED \<and>
   failureCount (breakerAt failedHeap ''payment-api'') = 1 \<and>
   state (breakerAt openHeap ''payment-api'') = OPEN \<and>
   nextRetryTime (breakerAt openHeap ''payment-api'') = Some (clock openHeap + 60000) \<and>
   CircuitBreaker_execute ''payment-api'' (invoke (succeed 20 ())) openHeap =
     (Inl (Error_new ''Circuit breaker is OPEN''), openHeap) \<and>
   state0 dbBreaker = CLOSED \<and>
   state0 (fst dbOpen) = OPEN \<and>
   lastFailureTime0 (fst dbOpen) = clock (snd dbOpen) \<and>
   CircuitBreaker0_execute query True dbOpen = (Inl (CircuitBreaker0_openError (fst dbOpen)), dbOpen)"
  using
    CircuitBreaker_closed_then_open[where h = paymentHeap and this = "''payment-api''"
      and operation = "failWith 20 ''ECONNRESET''" and ops = fiveFailures and t = 0
      and wrapped = "invoke (succeed 20 ())" and ?cb0.0 = dbBreaker and ?operation0.0 = query
      and args = False and rt = rt0 and argss = "replicate 5 False"]
    CircuitBreaker_closed_then_open[where h = openHeap and this = "''payment-api''"
      and operation = "failWith 20 ''ECONNRESET''" and ops = "[]" and t = 60100
      and wrapped = "invoke (succeed 20 ())" and ?cb0.0 = "fst dbOpen" and ?operation0.0 = query
      and args = True and rt = "snd dbOpen" and argss = "[]"]
  by (simp add: openHeap_breaker failedHeap_breaker dbOpen_eval fiveFailures_outcomes
      paymentHeap_breaker CircuitBreaker_new_def openHeap_def[symmetric] failedHeap_def[symmetric]
      dbBreaker_def CircuitBreaker0_new_def orDefault_def rt0_def)

subsection \<open>Claims about recovery\<close>

text \<open>
  Claim C3, as stated, fails on the counters. The breaker of \<open>resilience.ts\<close>, opened
  after one earlier success, is admitted once its reset timeout has passed and is closed
  again by the first success, with a success count of two: the count neither starts at
  zero nor is it reset, and no third success is awaited. The breaker of \<open>part_000\<close> is
  closed by the third success with its success count left at three.
\<close>

theorem CircuitBreaker_recovery_counters:
  "state (breakerAt mixedOpenLater ''payment-api'') = OPEN \<and>
   nextRetryTime (breakerAt mixedOpenLater ''payment-api'') = Some (clock mixedOpenLater) \<and>
   fst (CircuitBreaker_execute ''payment-api'' (invoke (succeed 20 ())) mixedOpenLater) = Inr () \<and>
   state (breakerAt (snd (CircuitBreaker_execute ''payment-api'' (invoke (succeed 20 ())) mixedOpenLater))
           ''payment-api'') = CLOSED \<and>
   successCount (breakerAt (snd (CircuitBreaker_execute ''payment-api'' (invoke (succeed 20 ())) mixedOpenLater))
           ''payment-api'') = 2 \<and>
   state0 (fst dbOpenLater) = OPEN \<and>
   fst (CircuitBreaker0_run query [True, True, True] dbOpenLater) = [Inr (), Inr (), Inr ()] \<and>
   state0 (fst (snd (CircuitBreaker0_run query [True, True, True] dbOpenLater))) = CLOSED \<and>
   successCount0 (fst (snd (CircuitBreaker0_run query [True, True, True] dbOpenLater))) = 3"
  by (simp add: mixedOpenLater_breaker dbOpenLater_eval example0_defs
      CircuitBreaker_execute_def invoke_def Runtime.truncate_def CircuitBreaker_onSuccess_def)

text \<open>
  Claim C3, amended. For both circuit breakers, once the reset timeout of an open breaker
  has passed, the next \<open>execute\<close> is admitted: the operation runs, with the breaker half
  open, and the call returns what the operation returns. A failure of a half-open breaker
  opens it again at once and restarts the timeout (\<open>nextRetryTime = now + resetTimeout\<close>
  in \<open>resilience.ts\<close>, for a breaker that was opened at its threshold;
  \<open>lastFailureTime = now\<close> in \<open>part_000\<close>). In \<open>part_000\<close> the success count is zeroed on the
  admission and incremented by every success of the half-open breaker, and the third
  success in a row closes the breaker with a failure count of zero; the success count
  stays at three. In \<open>resilience.ts\<close> too, three successful calls in a row, the first of
  them the admitted one, leave the breaker closed with a failure count of zero.
\<close>

theorem CircuitBreaker_half_open_recovery:
  fixes h :: "'x Heap" and this :: ref
    and operation :: "('x, JsError, 'a) Operation"
    and wrapped :: "('x, 'a) Wrapped"
    and cb0 :: CircuitBreaker0 and rt :: "'y Runtime"
    and operation0 :: "'args \<Rightarrow> ('y, JsError, 'b) Operation"
    and args a1 a2 a3 :: 'args
    and o1 o2 o3 :: "('x, JsError, 'a) Operation"
  defines "cb \<equiv> breakerAt h this"
    and "res \<equiv> CircuitBreaker_execute this (invoke operation) h"
    and "run \<equiv> CircuitBreaker_run this [o1, o2, o3] h"
    and "res0 \<equiv> CircuitBreaker0_execute operation0 args (cb0, rt)"
    and "run0 \<equiv> CircuitBreaker0_run operation0 [a1, a2, a3] (cb0, rt)"
  shows
    "(state cb = OPEN \<and> nextRetryTime cb = Some t \<and> t \<le> clock h \<and>
      failureThreshold (config cb) \<le> int (failureCount cb) \<longrightarrow>
        fst (CircuitBreaker_execute this wrapped h) =
          fst (wrapped (h\<lparr>breakerAt := (breakerAt h)(this := cb\<lparr>state := HALF_OPEN\<rparr>)\<rparr>)) \<and>
        fst res = fst (operation (Runtime.truncate h)) \<and>
        (isl (fst res) \<longrightarrow>
           state (breakerAt (snd res) this) = OPEN \<and>
           nextRetryTime (breakerAt (snd res) this) =
             Some (clock (snd res) + resetTimeout (config cb))) \<and>
        (list_all (\<lambda>r. \<not> isl r) (fst run) \<longrightarrow>
           state (breakerAt (snd run) this) = CLOSED \<and>
           failureCount (breakerAt (snd run) this) = 0)) \<and>
     (state0 cb0 = OPEN \<and> resetTimeout0 cb0 \<le> clock rt - lastFailureTime0 cb0 \<longrightarrow>
        fst res0 = fst (operation0 args rt) \<and>
        (isl (fst res0) \<longrightarrow>
           state0 (fst (snd res0)) = OPEN \<and>
           lastFailureTime0 (fst (snd res0)) = clock (snd (snd res0))) \<and>
        (\<not> isl (fst res0) \<longrightarrow>
           state0 (fst (snd res0)) = HALF_OPEN \<and>
           successCount0 (fst (snd res0)) = 1 \<and>
           failureCount0 (fst (snd res0)) = 0) \<and>
        (list_all (\<lambda>r. \<not> isl r) (fst run0) \<longrightarrow>
           state0 (fst (snd run0)) = CLOSED \<and>
           failureCount0 (fst (snd run0)) = 0 \<and>
           successCount0 (fst (snd run0)) = 3)) \<and>
     (state0 cb0 = HALF_OPEN \<longrightarrow>
        fst res0 = fst (operation0 args rt) \<and>
        (isl (fst res0) \<longrightarrow>
           state0 (fst (snd res0)) = OPEN \<and>
           lastFailureTime0 (fst (snd res0)) = clock (snd (snd res0))) \<and>
        (\<not> isl (fst res0) \<longrightarrow>
           successCount0 (fst (snd res0)) = successCount0 cb0 + 1 \<and>
           failureCount0 (fst (snd res0)) = 0 \<and>
           state0 (fst (snd res0)) =
             (if 3 \<le> successCount0 cb0 + 1 then CLOSED else HALF_OPEN)))"
proof -
  have r: "fst (CircuitBreaker_execute this wrapped h) =
          fst (wrapped (h\<lparr>breakerAt := (breakerAt h)(this := cb\<lparr>state := HALF_OPEN\<rparr>)\<rparr>)) \<and>
        fst res = fst (operation (Runtime.truncate h)) \<and>
        (isl (fst res) \<longrightarrow>
           state (breakerAt (snd res) this) = OPEN \<and>
           nextRetryTime (breakerAt (snd res) this) =
             Some (clock (snd res) + resetTimeout (config cb))) \<and>
        (list_all (\<lambda>r. \<not> isl r) (fst run) \<longrightarrow>
           state (breakerAt (snd run) this) = CLOSED \<and>
           failureCount (breakerAt (snd run) this) = 0)"
    if a: "state cb = OPEN \<and> nextRetryTime cb = Some t \<and> t \<le> clock h \<and>
      failureThreshold (config cb) \<le> int (failureCount cb)"
  proof -
    from a have o: "state (breakerAt h this) = OPEN" "nextRetryTime (breakerAt h this) = Some t"
      "t \<le> clock h" and thr: "failureThreshold (config (breakerAt h this)) \<le> int (failureCount (breakerAt h this))"
      unfolding cb_def by simp_all
    have 1: "fst (CircuitBreaker_execute this wrapped h) =
          fst (wrapped (h\<lparr>breakerAt := (breakerAt h)(this := cb\<lparr>state := HALF_OPEN\<rparr>)\<rparr>))"
      unfolding cb_def CircuitBreaker_execute_after_timeout[OF o]
      by (auto split: prod.splits sum.splits)
    have 2: "fst res = fst (operation (Runtime.truncate h))"
      unfolding res_def using CircuitBreaker_execute_half_open(1)[OF o] .
    have cb': "breakerAt (snd res) this =
          (case fst (operation (Runtime.truncate h)) of
             Inr _ \<Rightarrow> CircuitBreaker_onSuccess (clock (snd (operation (Runtime.truncate h)))) ((breakerAt h this)\<lparr>state := HALF_OPEN\<rparr>)
           | Inl _ \<Rightarrow> CircuitBreaker_onFailure (clock (snd (operation (Runtime.truncate h)))) ((breakerAt h this)\<lparr>state := HALF_OPEN\<rparr>))"
      unfolding res_def using CircuitBreaker_execute_half_open(2)[OF o] .
    have clk: "clock (snd res) = clock (snd (operation (Runtime.truncate h)))"
      unfolding res_def using o
      by (auto simp: CircuitBreaker_execute_def Let_def invoke_def Runtime.truncate_def
          split: prod.splits sum.splits)
    have 3: "state (breakerAt (snd res) this) = OPEN \<and>
           nextRetryTime (breakerAt (snd res) this) =
             Some (clock (snd res) + resetTimeout (config cb))" if "isl (fst res)"
      using that 2 cb' clk thr unfolding cb_def
      by (auto simp: CircuitBreaker_onFailure_def Let_def split: sum.splits)
    have 4: "state (breakerAt (snd run) this) = CLOSED \<and>
           failureCount (breakerAt (snd run) this) = 0" if "list_all (\<lambda>r. \<not> isl r) (fst run)"
      using CircuitBreaker_three_successes[OF o, of o1 o2 o3] that unfolding run_def by simp
    from 1 2 3 4 show ?thesis by blast
  qed
  have p: "fst res0 = fst (operation0 args rt) \<and>
        (isl (fst res0) \<longrightarrow>
           state0 (fst (snd res0)) = OPEN \<and>
           lastFailureTime0 (fst (snd res0)) = clock (snd (snd res0))) \<and>
        (\<not> isl (fst res0) \<longrightarrow>
           state0 (fst (snd res0)) = HALF_OPEN \<and>
           successCount0 (fst (snd res0)) = 1 \<and>
           failureCount0 (fst (snd res0)) = 0) \<and>
        (list_all (\<lambda>r. \<not> isl r) (fst run0) \<longrightarrow>
           state0 (fst (snd run0)) = CLOSED \<and>
           failureCount0 (fst (snd run0)) = 0 \<and>
           successCount0 (fst (snd run0)) = 3)"
    if a: "state0 cb0 = OPEN \<and> resetTimeout0 cb0 \<le> clock rt - lastFailureTime0 cb0"
  proof -
    from a have o: "state0 cb0 = OPEN" "resetTimeout0 cb0 \<le> clock rt - lastFailureTime0 cb0" by simp_all
    have step: "fst res0 = fst (operation0 args rt) \<and>
        (isl (fst res0) \<longrightarrow>
           state0 (fst (snd res0)) = OPEN \<and>
           lastFailureTime0 (fst (snd res0)) = clock (snd (snd res0))) \<and>
        (\<not> isl (fst res0) \<longrightarrow>
           state0 (fst (snd res0)) = HALF_OPEN \<and>
           successCount0 (fst (snd res0)) = 1 \<and>
           failureCount0 (fst (snd res0)) = 0)"
      unfolding res0_def CircuitBreaker0_execute_half_open[OF o]
      by (auto simp: CircuitBreaker0_onSuccess_def CircuitBreaker0_onFailure_def Let_def
          split: prod.splits sum.splits)
    have three: "state0 (fst (snd run0)) = CLOSED \<and>
           failureCount0 (fst (snd run0)) = 0 \<and>
           successCount0 (fst (snd run0)) = 3" if "list_all (\<lambda>r. \<not> isl r) (fst run0)"
      using CircuitBreaker0_three_successes(5,6,7)[OF o, of operation0 a1 a2 a3] that
      unfolding run0_def by simp
    from step three show ?thesis by blast
  qed
  have q: "fst res0 = fst (operation0 args rt) \<and>
        (isl (fst res0) \<longrightarrow>
           state0 (fst (snd res0)) = OPEN \<and>
           lastFailureTime0 (fst (snd res0)) = clock (snd (snd res0))) \<and>
        (\<not> isl (fst res0) \<longrightarrow>
           successCount0 (fst (snd res0)) = successCount0 cb0 + 1 \<and>
           failureCount0 (fst (snd res0)) = 0 \<and>
           state0 (fst (snd res0)) =
             (if 3 \<le> successCount0 cb0 + 1 then CLOSED else HALF_OPEN))"
    if a: "state0 cb0 = HALF_OPEN"
  proof -
    from a have "state0 cb0 \<noteq> OPEN" by simp
    from CircuitBreaker0_execute_admitted[OF this, of operation0 args rt] a
    show ?thesis unfolding res0_def
      by (auto simp: CircuitBreaker0_onSuccess_def CircuitBreaker0_onFailure_def Let_def
          split: prod.splits sum.splits)
  qed
  from r p q show ?thesis by blast
qed

theorem CircuitBreaker_half_open_recovery_witness:
  "state (breakerAt mixedOpenLater ''payment-api'') = OPEN \<and>
   fst (CircuitBreaker_execute ''payment-api'' (invoke (succeed 20 ())) mixedOpenLater) = Inr () \<and>
   state (breakerAt (snd (CircuitBreaker_run ''payment-api''
            [succeed 20 (), succeed 20 (), succeed 20 ()] mixedOpenLater)) ''payment-api'') = CLOSED \<and>
   failureCount (breakerAt (snd (CircuitBreaker_run ''payment-api''
            [succeed 20 (), succeed 20 (), succeed 20 ()] mixedOpenLater)) ''payment-api'') = 0 \<and>
   state (breakerAt (snd (CircuitBreaker_execute ''payment-api''
            (invoke (failWith 20 ''ECONNRESET'' :: (nat, JsError, unit) Operation)) mixedOpenLater))
            ''payment-api'') = OPEN \<and>
   nextRetryTime (breakerAt (snd (CircuitBreaker_execute ''payment-api''
            (invoke (failWith 20 ''ECONNRESET'' :: (nat, JsError, unit) Operation)) mixedOpenLater))
            ''payment-api'') = Some 120140 \<and>
   state0 (fst dbOpenLater) = OPEN \<and>
   state0 (fst (snd (CircuitBreaker0_run query [True, True, True] dbOpenLater))) = CLOSED \<and>
   failureCount0 (fst (snd (CircuitBreaker0_run query [True, True, True] dbOpenLater))) = 0 \<and>
   state0 (fst (snd (CircuitBreaker0_execute query False dbOpenLater))) = OPEN"
  using
    CircuitBreaker_half_open_recovery[where h = mixedOpenLater and this = "''payment-api''"
      and operation = "succeed 20 ()" and wrapped = "invoke (succeed 20 ())" and t = 60120
      and ?cb0.0 = "fst dbOpenLater" and rt = "snd dbOpenLater" and ?operation0.0 = query
      and args = False and ?a1.0 = True and ?a2.0 = True and ?a3.0 = True
      and ?o1.0 = "succeed 20 ()" and ?o2.0 = "succeed 20 ()" and ?o3.0 = "succeed 20 ()"]
    CircuitBreaker_half_open_recovery[where h = mixedOpenLater and this = "''payment-api''"
      and operation = "failWith 20 ''ECONNRESET'' :: (nat, JsError, unit) Operation"
      and wrapped = "invoke (succeed 20 ())" and t = 60120
      and ?cb0.0 = "fst dbOpenLater" and rt = "snd dbOpenLater" and ?operation0.0 = query
      and args = True and ?a1.0 = True and ?a2.0 = True and ?a3.0 = True
      and ?o1.0 = "succeed 20 ()" and ?o2.0 = "succeed 20 ()" and ?o3.0 = "succeed 20 ()"]
  by (simp add: mixedOpenLater_breaker dbOpenLater_eval example0_defs
      CircuitBreaker_execute_def invoke_def Runtime.truncate_def CircuitBreaker_onSuccess_def
      CircuitBreaker_onFailure_def)

section \<open>Health: facts and claims\<close>

text \<open>
  Claim C4, as stated, fails on the error rate: after one failure and one success the
  reported rate is 50, not one half. \<open>calculateErrorRate\<close> multiplies the ratio by 100.
\<close>

theorem getServiceHealth_rate_is_percentage:
  "errorRate (getServiceHealth paymentManager ''payment-api'' mixedHeap) = 50 \<and>
   errorRate (getServiceHealth paymentManager ''payment-api'' mixedHeap) \<noteq>
     of_nat (failureCount (breakerAt mixedHeap ''payment-api'')) /
       of_nat (failureCount (breakerAt mixedHeap ''payment-api'') +
               successCount (breakerAt mixedHeap ''payment-api''))"
  by (simp add: getServiceHealth_def paymentManager_simps mixedHeap_breaker calculateErrorRate_def
      CircuitBreaker_getMetrics_def Let_def)

text \<open>
  Claim C4, amended. For a service with a circuit breaker, \<open>getServiceHealth\<close> reports
  \<open>unhealthy\<close> when the breaker is open, \<open>degraded\<close> when it is half open or closed with
  a failure count above zero, and \<open>healthy\<close> otherwise; the error rate is the percentage
  \<open>100 * failureCount / (failureCount + successCount)\<close>, and 0 when both counters are zero.
\<close>

theorem getServiceHealth_status_and_rate:
  assumes "circuitBreakers m svc = Some r"
  shows "status (getServiceHealth m svc h) =
           (case state (breakerAt h r) of
              OPEN \<Rightarrow> unhealthy
            | HALF_OPEN \<Rightarrow> degraded
            | CLOSED \<Rightarrow> if failureCount (breakerAt h r) > 0 then degraded else healthy) \<and>
         errorRate (getServiceHealth m svc h) =
           (if failureCount (breakerAt h r) = 0 \<and> successCount (breakerAt h r) = 0 then 0
            else 100 * of_nat (failureCount (breakerAt h r)) /
                   of_nat (failureCount (breakerAt h r) + successCount (breakerAt h r)))"
  using assms
  by (cases "state (breakerAt h r)")
     (simp_all add: getServiceHealth_def determineStatus_def calculateErrorRate_def
        CircuitBreaker_getMetrics_def)

theorem getServiceHealth_status_and_rate_witness:
  "status (getServiceHealth paymentManager ''payment-api'' mixedHeap) = degraded \<and>
   errorRate (getServiceHealth paymentManager ''payment-api'' mixedHeap) = 50 \<and>
   status (getServiceHealth paymentManager ''payment-api'' paymentHeap) = healthy \<and>
   errorRate (getServiceHealth paymentManager ''payment-api'' paymentHeap) = 0"
  using getServiceHealth_status_and_rate[of paymentManager "''payment-api''" "''payment-api''" mixedHeap]
    getServiceHealth_status_and_rate[of paymentManager "''payment-api''" "''payment-api''" paymentHeap]
  by (simp add: paymentManager_simps mixedHeap_breaker paymentHeap_breaker CircuitBreaker_new_def)

section \<open>Retry policies: facts and claims\<close>

lemma RetryPolicy_attempts_success:
  assumes "attempt \<le> maxAttempts cfg" "operation rt = (Inr result, rt1)"
  shows "RetryPolicy_attempts cfg operation attempt delay rt = (Inr result, rt1)"
  using assms by (simp add: RetryPolicy_attempts.simps)

lemma RetryPolicy_attempts_final:
  assumes "attempt \<le> maxAttempts cfg" "operation rt = (Inl error, rt1)"
    and "attempt = maxAttempts cfg \<or> (error \<noteq> JsUndefined \<and> \<not> isRetryableError cfg error)"
  shows "RetryPolicy_attempts cfg operation attempt delay rt = (Inl error, rt1)"
  using assms by (auto simp: RetryPolicy_attempts.simps)

lemma RetryPolicy_attempts_retry:
  assumes "attempt < maxAttempts cfg" "operation rt = (Inl error, rt1)"
    and "error \<noteq> JsUndefined" "isRetryableError cfg error"
  shows "RetryPolicy_attempts cfg operation attempt delay rt =
           RetryPolicy_attempts cfg operation (attempt + 1)
             (min (delay * backoffMultiplier cfg) (maxDelay cfg)) (sleep delay rt1)"
  using assms by (subst RetryPolicy_attempts.simps) simp

lemma RetryPolicy0_attempts_success:
  assumes "attempt \<le> maxAttempts0 p" "operation rt = (Inr result, rt1)"
  shows "RetryPolicy0_attempts p operation shouldRetry attempt rt = (Inr result, rt1)"
  using assms by (simp add: RetryPolicy0_attempts.simps)

lemma RetryPolicy0_attempts_final:
  assumes "attempt \<le> maxAttempts0 p" "operation rt = (Inl error, rt1)"
    and "attempt = maxAttempts0 p \<or> \<not> shouldRetry error"
  shows "RetryPolicy0_attempts p operation shouldRetry attempt rt = (Inl error, rt1)"
  using assms by (auto simp: RetryPolicy0_attempts.simps)

lemma RetryPolicy0_attempts_retry:
  assumes "attempt < maxAttempts0 p" "operation rt = (Inl error, rt1)"
    and "error \<noteq> JsUndefined" "shouldRetry error"
  shows "RetryPolicy0_attempts p operation shouldRetry attempt rt =
           RetryPolicy0_attempts p operation shouldRetry (attempt + 1)
             (sleep (RetryPolicy0_delay p attempt +
                     RetryPolicy0_delay p attempt * (1 / 10) * fst (Math_random rt1))
                (snd (Math_random rt1)))"
  using assms by (subst RetryPolicy0_attempts.simps) (simp add: Let_def split: prod.splits)

lemma Math_random_range:
  assumes "\<forall>r \<in> set (randoms rt). 0 \<le> r \<and> r < 1"
  shows "0 \<le> fst (Math_random rt) \<and> fst (Math_random rt) < 1"
    and "\<forall>r \<in> set (randoms (snd (Math_random rt))). 0 \<le> r \<and> r < 1"
  using assms by (auto simp: Math_random_def split: list.splits)

lemma backoff_closed_form:
  fixes i m M :: rat
  assumes "0 \<le> i" "i \<le> M" "1 \<le> m"
  shows "min (min (i * m ^ k) M * m) M = min (i * m ^ Suc k) M"
proof -
  define x where "x = i * m ^ k"
  have M0: "0 \<le> M" using assms by simp
  have x0: "0 \<le> x" using assms by (simp add: x_def)
  have MM: "M \<le> M * m" using M0 assms(3) by (simp add: mult_le_cancel_left1)
  have xx: "x \<le> x * m" using x0 assms(3) by (simp add: mult_le_cancel_left1)
  have suc: "i * m ^ Suc k = x * m" by (simp add: x_def mult.assoc mult.commute)
  show ?thesis
  proof (cases "x \<le> M")
    case True
    then show ?thesis unfolding suc x_def[symmetric] by (simp add: min_def)
  next
    case False
    then have "M < x * m" using xx by linarith
    with False MM show ?thesis unfolding suc x_def[symmetric] by (simp add: min_def)
  qed
qed

lemma RetryPolicy_attempts_slept:
  assumes fails: "\<forall>rt. \<exists>error rt1. operation rt = (Inl error, rt1) \<and> error \<noteq> JsUndefined \<and>
                     isRetryableError cfg error \<and> slept rt1 = slept rt"
    and le: "attempt \<le> maxAttempts cfg"
  shows "slept (snd (RetryPolicy_attempts cfg operation attempt delay rt)) =
           slept rt @ map (\<lambda>i. ((\<lambda>d. min (d * backoffMultiplier cfg) (maxDelay cfg)) ^^ i) delay)
                          [0..<nat (maxAttempts cfg - attempt)]"
  using le
proof (induction "nat (maxAttempts cfg - attempt)" arbitrary: attempt delay rt)
  case 0
  then have last: "attempt = maxAttempts cfg" by simp
  from fails obtain error rt1 where op: "operation rt = (Inl error, rt1)" "slept rt1 = slept rt" by blast
  from RetryPolicy_attempts_final[of attempt cfg operation rt error rt1 delay] "0.prems" last op
  show ?case by simp
next
  case (Suc n)
  then have lt: "attempt < maxAttempts cfg" by simp
  from fails obtain error rt1 where op: "operation rt = (Inl error, rt1)" "error \<noteq> JsUndefined"
    "isRetryableError cfg error" "slept rt1 = slept rt" by blast
  let ?next = "\<lambda>d. min (d * backoffMultiplier cfg) (maxDelay cfg)"
  have step: "RetryPolicy_attempts cfg operation attempt delay rt =
           RetryPolicy_attempts cfg operation (attempt + 1) (?next delay) (sleep delay rt1)"
    using RetryPolicy_attempts_retry[of attempt cfg operation rt error rt1 delay] lt op by simp
  from Suc.hyps(2) have n: "n = nat (maxAttempts cfg - (attempt + 1))" by simp
  from lt have le1: "attempt + 1 \<le> maxAttempts cfg" by simp
  have IH: "slept (snd (RetryPolicy_attempts cfg operation (attempt + 1) (?next delay) (sleep delay rt1))) =
           slept (sleep delay rt1) @ map (\<lambda>i. (?next ^^ i) (?next delay)) [0..<n]"
    using Suc.hyps(1)[OF n le1] n by simp
  have sw: "(?next ^^ Suc i) delay = (?next ^^ i) (?next delay)" for i
    by (simp only: funpow_Suc_right comp_def)
  have "[0..<Suc n] = 0 # map Suc [0..<n]" by (simp add: upt_conv_Cons map_Suc_upt del: upt_Suc)
  then have "map (\<lambda>i. (?next ^^ i) delay) [0..<Suc n] =
               (?next ^^ 0) delay # map (\<lambda>i. (?next ^^ Suc i) delay) [0..<n]"
    by (simp only: list.map map_map comp_def)
  then have m: "map (\<lambda>i. (?next ^^ i) delay) [0..<Suc n] =
               delay # map (\<lambda>i. (?next ^^ i) (?next delay)) [0..<n]"
    by (simp only: sw funpow_0)
  have "slept (sleep delay rt1) = slept rt @ [delay]" using op(4) by (simp add: sleep_def)
  with IH step m Suc.hyps(2)[symmetric] show ?case by (simp only: append_assoc append_Cons append_Nil)
qed

lemma backoff_iterate:
  fixes i m M :: rat
  assumes "0 \<le> i" "i \<le> M" "1 \<le> m"
  shows "((\<lambda>d. min (d * m) M) ^^ k) i = min (i * m ^ k) M"
proof (induction k)
  case 0
  with assms show ?case by simp
next
  case (Suc k)
  then show ?case using backoff_closed_form[OF assms, of k] by simp
qed

lemma Math_random_frame:
  "slept (snd (Math_random rt)) = slept rt" "clock (snd (Math_random rt)) = clock rt"
  by (simp_all add: Math_random_def split: list.splits)

lemma RetryPolicy0_attempts_slept:
  assumes fails: "\<forall>rt. \<exists>error rt1. operation rt = (Inl error, rt1) \<and> error \<noteq> JsUndefined \<and>
                     shouldRetry error \<and> slept rt1 = slept rt \<and> randoms rt1 = randoms rt"
    and nonneg: "\<forall>k. 0 \<le> RetryPolicy0_delay p k"
    and rand: "\<forall>r \<in> set (randoms rt). 0 \<le> r \<and> r < 1"
    and le: "attempt \<le> maxAttempts0 p"
  shows "\<exists>ss. slept (snd (RetryPolicy0_attempts p operation shouldRetry attempt rt)) = slept rt @ ss \<and>
              list_all2 (\<lambda>s k. RetryPolicy0_delay p k \<le> s \<and> s \<le> RetryPolicy0_delay p k * (11 / 10))
                ss (map (\<lambda>i. attempt + int i) [0..<nat (maxAttempts0 p - attempt)])"
  using rand le
proof (induction "nat (maxAttempts0 p - attempt)" arbitrary: attempt rt)
  case 0
  then have last: "attempt = maxAttempts0 p" by simp
  from fails obtain error rt1 where op: "operation rt = (Inl error, rt1)" "slept rt1 = slept rt" by blast
  from RetryPolicy0_attempts_final[of attempt p operation rt error rt1 shouldRetry] "0.prems" last op
  show ?case by simp
next
  case (Suc n)
  then have lt: "attempt < maxAttempts0 p" by simp
  from fails obtain error rt1 where op: "operation rt = (Inl error, rt1)" "error \<noteq> JsUndefined"
    "shouldRetry error" "slept rt1 = slept rt" "randoms rt1 = randoms rt" by blast
  define d where "d = RetryPolicy0_delay p attempt"
  define r where "r = fst (Math_random rt1)"
  define rt2 where "rt2 = sleep (d + d * (1 / 10) * r) (snd (Math_random rt1))"
  have step: "RetryPolicy0_attempts p operation shouldRetry attempt rt =
           RetryPolicy0_attempts p operation shouldRetry (attempt + 1) rt2"
    using RetryPolicy0_attempts_retry[of attempt p operation rt error rt1 shouldRetry] lt op
    by (simp add: d_def r_def rt2_def)
  from Suc.prems(1) op(5) have rand1: "\<forall>r \<in> set (randoms rt1). 0 \<le> r \<and> r < 1" by simp
  from Math_random_range[OF rand1] have r01: "0 \<le> r" "r < 1"
    and rand2: "\<forall>r \<in> set (randoms rt2). 0 \<le> r \<and> r < 1"
    by (simp_all add: r_def rt2_def sleep_def)
  have d0: "0 \<le> d" using nonneg by (simp add: d_def)
  have bound: "d \<le> d + d * (1 / 10) * r \<and> d + d * (1 / 10) * r \<le> d * (11 / 10)"
  proof -
    have "0 \<le> d * r" using d0 r01 by simp
    moreover have "d * r \<le> d" using d0 r01 by (simp add: mult_left_le)
    ultimately show ?thesis by (simp add: algebra_simps)
  qed
  have sl: "slept rt2 = slept rt @ [d + d * (1 / 10) * r]"
    using op(4) by (simp add: rt2_def sleep_def Math_random_frame)
  from Suc.hyps(2) have n: "n = nat (maxAttempts0 p - (attempt + 1))" by simp
  from lt have le1: "attempt + 1 \<le> maxAttempts0 p" by simp
  from Suc.hyps(1)[OF n rand2 le1] obtain ss where
    ss: "slept (snd (RetryPolicy0_attempts p operation shouldRetry (attempt + 1) rt2)) = slept rt2 @ ss"
      "list_all2 (\<lambda>s k. RetryPolicy0_delay p k \<le> s \<and> s \<le> RetryPolicy0_delay p k * (11 / 10))
         ss (map (\<lambda>i. attempt + 1 + int i) [0..<n])"
    using n by auto
  have "[0..<Suc n] = 0 # map Suc [0..<n]" by (simp add: upt_conv_Cons map_Suc_upt del: upt_Suc)
  then have idx: "map (\<lambda>i. attempt + int i) [0..<Suc n] = attempt # map (\<lambda>i. attempt + 1 + int i) [0..<n]"
    by (simp add: comp_def del: upt_Suc)
  have "slept (snd (RetryPolicy0_attempts p operation shouldRetry attempt rt)) =
          slept rt @ ((d + d * (1 / 10) * r) # ss)"
    using step ss(1) sl by simp
  moreover have "list_all2 (\<lambda>s k. RetryPolicy0_delay p k \<le> s \<and> s \<le> RetryPolicy0_delay p k * (11 / 10))
                ((d + d * (1 / 10) * r) # ss) (map (\<lambda>i. attempt + int i) [0..<Suc n])"
    unfolding idx using bound ss(2) by (simp add: d_def)
  ultimately show ?case using Suc.hyps(2)[symmetric] by (intro exI[of _ "(d + d * (1 / 10) * r) # ss"]) simp
qed

subsection \<open>Claim about the retry loop\<close>

text \<open>
  Claim C6, as stated, fails on the policy of \<open>resilience.ts\<close>. With a first delay of 2000
  and a cap of 1000 the policy sleeps 2000 and then 1000: the first sleep is above
  \<open>min(initialDelay * backoffMultiplier^0, maxDelay)\<close> plus a tenth, since the cap is applied
  only when the delay is multiplied. And an operation that rejects with \<open>undefined\<close> is not
  propagated unmodified when patterns are configured: reading its message throws a
  \<open>TypeError\<close>.
\<close>

theorem RetryPolicy_first_delay_uncapped:
  "slept (snd (RetryPolicy_execute slowStartRetry
                 (failWith 20 ''ECONNRESET'' :: (nat, JsError, unit) Operation) rt0)) = [2000, 1000] \<and>
   \<not> (2000 \<le> min (initialDelay slowStartRetry * backoffMultiplier slowStartRetry ^ 0)
                   (maxDelay slowStartRetry) * (11 / 10)) \<and>
   fst (rejectUndefined rt0) = Inl JsUndefined \<and>
   fst (RetryPolicy_execute paymentRetry rejectUndefined rt0) \<noteq> fst (rejectUndefined rt0)"
  by (simp add: slowStartRetry_eval paymentRetry_eval)
     (simp add: slowStartRetry_def rejectUndefined_def TypeError_message_def)

text \<open>
  Claim C6, amended. For both retry policies, in a round of the loop: a successful attempt
  returns its result at once; a failed attempt that is the last of \<open>maxAttempts\<close>, or whose
  error is not retryable (\<open>shouldRetry\<close> is false in \<open>part_000\<close>; no configured pattern occurs
  in the message or the name of the error in \<open>resilience.ts\<close>), is propagated as it is,
  so a non-retryable error is propagated after exactly one attempt; a failed attempt with
  a retryable \<open>Error\<close> object before the last round sleeps and goes to the next round.
  The policy of \<open>part_000\<close> sleeps \<open>delay + jitter\<close>, where \<open>delay\<close> is
  \<open>min(baseDelay * backoffMultiplier^(attempt-1), maxDelay)\<close> and \<open>jitter\<close> is a tenth of
  \<open>delay\<close> times \<open>Math.random()\<close>, between 0 and a tenth of \<open>delay\<close>. The policy of
  \<open>resilience.ts\<close> sleeps without jitter; with a configuration where
  \<open>0 \<le> initialDelay \<le> maxDelay\<close> and \<open>backoffMultiplier \<ge> 1\<close> its loop starts with the delay
  \<open>min(initialDelay * backoffMultiplier^0, maxDelay)\<close>, sleeps
  \<open>min(initialDelay * backoffMultiplier^(attempt-1), maxDelay)\<close> after failed attempt
  \<open>attempt\<close>, and so sleeps exactly these delays, one after another, for an operation that
  always fails retryably.
\<close>

theorem RetryPolicy_attempts_and_backoff:
  fixes operation :: "('x, 'z) Runtime_scheme \<Rightarrow> (JsError + 'a) \<times> ('x, 'z) Runtime_scheme"
    and p :: RetryPolicy0 and cfg :: RetryConfig
    and attempt :: int and rt1 :: "('x, 'z) Runtime_scheme"
  defines "delay0 \<equiv> min (baseDelay0 p * backoffMultiplier0 p ^ nat (attempt - 1)) (maxDelay0 p)"
    and "jitter \<equiv> min (baseDelay0 p * backoffMultiplier0 p ^ nat (attempt - 1)) (maxDelay0 p)
                     * (1 / 10) * fst (Math_random rt1)"
  shows
    "(attempt \<le> maxAttempts0 p \<and> operation rt = (Inr result, rt1) \<longrightarrow>
        RetryPolicy0_attempts p operation shouldRetry attempt rt = (Inr result, rt1)) \<and>
     (attempt \<le> maxAttempts0 p \<and> operation rt = (Inl error, rt1) \<and>
      (attempt = maxAttempts0 p \<or> \<not> shouldRetry error) \<longrightarrow>
        RetryPolicy0_attempts p operation shouldRetry attempt rt = (Inl error, rt1)) \<and>
     (1 \<le> maxAttempts0 p \<and> operation rt = (Inl error, rt1) \<and> \<not> shouldRetry error \<longrightarrow>
        RetryPolicy0_execute p operation (Some shouldRetry) rt = (Inl error, rt1)) \<and>
     (attempt < maxAttempts0 p \<and> operation rt = (Inl error, rt1) \<and> error \<noteq> JsUndefined \<and>
      shouldRetry error \<longrightarrow>
        RetryPolicy0_attempts p operation shouldRetry attempt rt =
          RetryPolicy0_attempts p operation shouldRetry (attempt + 1)
            (sleep (delay0 + jitter) (snd (Math_random rt1))) \<and>
        ((\<forall>r \<in> set (randoms rt1). 0 \<le> r \<and> r < 1) \<and> 0 \<le> delay0 \<longrightarrow>
           0 \<le> jitter \<and> jitter \<le> delay0 / 10)) \<and>
     (attempt \<le> maxAttempts cfg \<and> operation rt = (Inr result, rt1) \<longrightarrow>
        RetryPolicy_attempts cfg operation attempt delay rt = (Inr result, rt1)) \<and>
     (attempt \<le> maxAttempts cfg \<and> operation rt = (Inl error, rt1) \<and>
      (attempt = maxAttempts cfg \<or> (error \<noteq> JsUndefined \<and> \<not> isRetryableError cfg error)) \<longrightarrow>
        RetryPolicy_attempts cfg operation attempt delay rt = (Inl error, rt1)) \<and>
     (1 \<le> maxAttempts cfg \<and> operation rt = (Inl error, rt1) \<and> error \<noteq> JsUndefined \<and>
      \<not> isRetryableError cfg error \<longrightarrow>
        RetryPolicy_execute cfg operation rt = (Inl error, rt1)) \<and>
     (0 \<le> initialDelay cfg \<and> initialDelay cfg \<le> maxDelay cfg \<and> 1 \<le> backoffMultiplier cfg \<longrightarrow>
        RetryPolicy_execute cfg operation rt =
          RetryPolicy_attempts cfg operation 1
            (min (initialDelay cfg * backoffMultiplier cfg ^ 0) (maxDelay cfg)) rt \<and>
        (1 \<le> attempt \<and> attempt < maxAttempts cfg \<and> operation rt = (Inl error, rt1) \<and>
         error \<noteq> JsUndefined \<and> isRetryableError cfg error \<longrightarrow>
           RetryPolicy_attempts cfg operation attempt
               (min (initialDelay cfg * backoffMultiplier cfg ^ nat (attempt - 1)) (maxDelay cfg)) rt =
             RetryPolicy_attempts cfg operation (attempt + 1)
               (min (initialDelay cfg * backoffMultiplier cfg ^ nat attempt) (maxDelay cfg))
               (sleep (min (initialDelay cfg * backoffMultiplier cfg ^ nat (attempt - 1)) (maxDelay cfg))
                  rt1)) \<and>
        ((\<forall>rt. \<exists>error rt1. operation rt = (Inl error, rt1) \<and> error \<noteq> JsUndefined \<and>
                 isRetryableError cfg error \<and> slept rt1 = slept rt) \<and>
         1 \<le> maxAttempts cfg \<longrightarrow>
           slept (snd (RetryPolicy_execute cfg operation rt)) =
             slept rt @
             map (\<lambda>i. min (initialDelay cfg * backoffMultiplier cfg ^ i) (maxDelay cfg))
               [0..<nat (maxAttempts cfg - 1)]))"
proof -
  have a1: "RetryPolicy0_attempts p operation shouldRetry attempt rt = (Inr result, rt1)"
    if "attempt \<le> maxAttempts0 p \<and> operation rt = (Inr result, rt1)"
    using that RetryPolicy0_attempts_success[of attempt p operation rt result rt1 shouldRetry] by simp
  have a2: "RetryPolicy0_attempts p operation shouldRetry attempt rt = (Inl error, rt1)"
    if "attempt \<le> maxAttempts0 p \<and> operation rt = (Inl error, rt1) \<and>
      (attempt = maxAttempts0 p \<or> \<not> shouldRetry error)"
    using that RetryPolicy0_attempts_final[of attempt p operation rt error rt1 shouldRetry] by simp
  have a3: "RetryPolicy0_execute p operation (Some shouldRetry) rt = (Inl error, rt1)"
    if "1 \<le> maxAttempts0 p \<and> operation rt = (Inl error, rt1) \<and> \<not> shouldRetry error"
    using that RetryPolicy0_attempts_final[of 1 p operation rt error rt1 shouldRetry]
    by (simp add: RetryPolicy0_execute_def)
  have a4: "RetryPolicy0_attempts p operation shouldRetry attempt rt =
          RetryPolicy0_attempts p operation shouldRetry (attempt + 1)
            (sleep (delay0 + jitter) (snd (Math_random rt1))) \<and>
        ((\<forall>r \<in> set (randoms rt1). 0 \<le> r \<and> r < 1) \<and> 0 \<le> delay0 \<longrightarrow>
           0 \<le> jitter \<and> jitter \<le> delay0 / 10)"
    if h: "attempt < maxAttempts0 p \<and> operation rt = (Inl error, rt1) \<and> error \<noteq> JsUndefined \<and>
      shouldRetry error"
  proof -
    have step: "RetryPolicy0_attempts p operation shouldRetry attempt rt =
          RetryPolicy0_attempts p operation shouldRetry (attempt + 1)
            (sleep (delay0 + jitter) (snd (Math_random rt1)))"
      using h RetryPolicy0_attempts_retry[of attempt p operation rt error rt1 shouldRetry]
      by (simp add: delay0_def jitter_def RetryPolicy0_delay_def)
    have jit: "0 \<le> jitter \<and> jitter \<le> delay0 / 10"
      if r: "(\<forall>r \<in> set (randoms rt1). 0 \<le> r \<and> r < 1) \<and> 0 \<le> delay0"
    proof -
      from r Math_random_range(1)[of rt1]
      have r01: "0 \<le> fst (Math_random rt1)" "fst (Math_random rt1) < 1" by simp_all
      have j: "jitter = delay0 * (1 / 10) * fst (Math_random rt1)"
        by (simp add: jitter_def delay0_def)
      from r r01 have "0 \<le> delay0 * fst (Math_random rt1)" by simp
      moreover from r r01 have "delay0 * fst (Math_random rt1) \<le> delay0" by (simp add: mult_left_le)
      ultimately show ?thesis unfolding j by simp
    qed
    from step jit show ?thesis by (intro conjI impI) simp_all
  qed
  have b1: "RetryPolicy_attempts cfg operation attempt delay rt = (Inr result, rt1)"
    if "attempt \<le> maxAttempts cfg \<and> operation rt = (Inr result, rt1)"
    using that RetryPolicy_attempts_success[of attempt cfg operation rt result rt1 delay] by simp
  have b2: "RetryPolicy_attempts cfg operation attempt delay rt = (Inl error, rt1)"
    if "attempt \<le> maxAttempts cfg \<and> operation rt = (Inl error, rt1) \<and>
      (attempt = maxAttempts cfg \<or> (error \<noteq> JsUndefined \<and> \<not> isRetryableError cfg error))"
    using that RetryPolicy_attempts_final[of attempt cfg operation rt error rt1 delay] by simp
  have b3: "RetryPolicy_execute cfg operation rt = (Inl error, rt1)"
    if "1 \<le> maxAttempts cfg \<and> operation rt = (Inl error, rt1) \<and> error \<noteq> JsUndefined \<and>
      \<not> isRetryableError cfg error"
    using that RetryPolicy_attempts_final[of 1 cfg operation rt error rt1 "initialDelay cfg"]
    by (simp add: RetryPolicy_execute_def)
  have b4: "RetryPolicy_execute cfg operation rt =
          RetryPolicy_attempts cfg operation 1
            (min (initialDelay cfg * backoffMultiplier cfg ^ 0) (maxDelay cfg)) rt \<and>
        (1 \<le> attempt \<and> attempt < maxAttempts cfg \<and> operation rt = (Inl error, rt1) \<and>
         error \<noteq> JsUndefined \<and> isRetryableError cfg error \<longrightarrow>
           RetryPolicy_attempts cfg operation attempt
               (min (initialDelay cfg * backoffMultiplier cfg ^ nat (attempt - 1)) (maxDelay cfg)) rt =
             RetryPolicy_attempts cfg operation (attempt + 1)
               (min (initialDelay cfg * backoffMultiplier cfg ^ nat attempt) (maxDelay cfg))
               (sleep (min (initialDelay cfg * backoffMultiplier cfg ^ nat (attempt - 1)) (maxDelay cfg))
                  rt1)) \<and>
        ((\<forall>rt. \<exists>error rt1. operation rt = (Inl error, rt1) \<and> error \<noteq> JsUndefined \<and>
                 isRetryableError cfg error \<and> slept rt1 = slept rt) \<and>
         1 \<le> maxAttempts cfg \<longrightarrow>
           slept (snd (RetryPolicy_execute cfg operation rt)) =
             slept rt @
             map (\<lambda>i. min (initialDelay cfg * backoffMultiplier cfg ^ i) (maxDelay cfg))
               [0..<nat (maxAttempts cfg - 1)])"
    if s: "0 \<le> initialDelay cfg \<and> initialDelay cfg \<le> maxDelay cfg \<and> 1 \<le> backoffMultiplier cfg"
  proof -
    from s have s': "0 \<le> initialDelay cfg" "initialDelay cfg \<le> maxDelay cfg"
      "1 \<le> backoffMultiplier cfg" by simp_all
    have start: "RetryPolicy_execute cfg operation rt =
          RetryPolicy_attempts cfg operation 1
            (min (initialDelay cfg * backoffMultiplier cfg ^ 0) (maxDelay cfg)) rt"
      using s'(2) by (simp add: RetryPolicy_execute_def min_def)
    have step: "RetryPolicy_attempts cfg operation attempt
               (min (initialDelay cfg * backoffMultiplier cfg ^ nat (attempt - 1)) (maxDelay cfg)) rt =
             RetryPolicy_attempts cfg operation (attempt + 1)
               (min (initialDelay cfg * backoffMultiplier cfg ^ nat attempt) (maxDelay cfg))
               (sleep (min (initialDelay cfg * backoffMultiplier cfg ^ nat (attempt - 1)) (maxDelay cfg))
                  rt1)"
      if h: "1 \<le> attempt \<and> attempt < maxAttempts cfg \<and> operation rt = (Inl error, rt1) \<and>
         error \<noteq> JsUndefined \<and> isRetryableError cfg error"
    proof -
      from h have "1 \<le> attempt" by (rule conjunct1)
      then have n: "nat attempt = Suc (nat (attempt - 1))" by arith
      from h RetryPolicy_attempts_retry[of attempt cfg operation rt error rt1
          "min (initialDelay cfg * backoffMultiplier cfg ^ nat (attempt - 1)) (maxDelay cfg)"]
      show ?thesis
        unfolding n backoff_closed_form[OF s', of "nat (attempt - 1)", symmetric] by simp
    qed
    have trace: "slept (snd (RetryPolicy_execute cfg operation rt)) =
             slept rt @
             map (\<lambda>i. min (initialDelay cfg * backoffMultiplier cfg ^ i) (maxDelay cfg))
               [0..<nat (maxAttempts cfg - 1)]"
      if h: "(\<forall>rt. \<exists>error rt1. operation rt = (Inl error, rt1) \<and> error \<noteq> JsUndefined \<and>
                 isRetryableError cfg error \<and> slept rt1 = slept rt) \<and>
         1 \<le> maxAttempts cfg"
    proof -
      from h have f: "\<forall>rt. \<exists>error rt1. operation rt = (Inl error, rt1) \<and> error \<noteq> JsUndefined \<and>
              isRetryableError cfg error \<and> slept rt1 = slept rt" and m: "1 \<le> maxAttempts cfg"
        by (rule conjunct1, rule conjunct2)
      show ?thesis
        unfolding RetryPolicy_execute_def RetryPolicy_attempts_slept[OF f m]
        using backoff_iterate[OF s'] by simp
    qed
    from start step trace show ?thesis by (intro conjI impI) simp_all
  qed
  show ?thesis
    by (intro conjI; (rule impI, (erule a1 | erule a2 | erule a3 | erule a4 | erule b1 | erule b2 | erule b3 | erule b4)))
qed

theorem RetryPolicy_attempts_and_backoff_witness:
  "RetryPolicy0_execute defaultRetry0 (failWith 20 ''ECONNRESET'' :: (nat, JsError, unit) Operation) None rtRandom =
     (Inl (Error_new ''ECONNRESET''), rt0\<lparr>clock := 3160, slept := [1050, 2050], ext := 3\<rparr>) \<and>
   RetryPolicy0_execute defaultRetry0 (failWith 20 ''EACCES'' :: (nat, JsError, unit) Operation)
     (Some (\<lambda>error. message error = ''ECONNRESET'')) rtRandom =
     (Inl (Error_new ''EACCES''), rtRandom\<lparr>clock := 20, ext := 1\<rparr>) \<and>
   RetryPolicy_execute paymentRetry (failWith 20 ''EACCES'' :: (nat, JsError, unit) Operation) rt0 =
     (Inl (Error_new ''EACCES''), rt0\<lparr>clock := 20, ext := 1\<rparr>) \<and>
   slept (snd (RetryPolicy_execute paymentRetry
                 (failWith 20 ''ECONNRESET'' :: (nat, JsError, unit) Operation) rt0)) =
     [min (1000 * 2 ^ 0) 10000, min (1000 * 2 ^ 1) 10000]"
  using
    RetryPolicy_attempts_and_backoff[where operation = "failWith 20 ''EACCES'' :: (nat, JsError, unit) Operation"
      and p = defaultRetry0 and cfg = paymentRetry and attempt = 1 and rt = rtRandom
      and ?rt1.0 = "rtRandom\<lparr>clock := 20, ext := 1\<rparr>" and error = "Error_new ''EACCES''"
      and shouldRetry = "\<lambda>error. message error = ''ECONNRESET''" and delay = 1000 and result = "()"]
    RetryPolicy_attempts_and_backoff[where operation = "failWith 20 ''ECONNRESET'' :: (nat, JsError, unit) Operation"
      and p = defaultRetry0 and cfg = paymentRetry and attempt = 1 and rt = rt0
      and ?rt1.0 = "rt0\<lparr>clock := 20, ext := 1\<rparr>" and error = "Error_new ''ECONNRESET''"
      and shouldRetry = "\<lambda>error. True" and delay = 1000 and result = "()"]
  by (simp add: defaultRetry0_eval paymentRetry_eval)

section \<open>The pipeline: facts and claims\<close>

subsection \<open>What the constructor registers\<close>

lemma initializeComponent_maps:
  "circuitBreakers (fst (initializeComponent (k, c) (m, h))) =
     (case circuitBreaker c of None \<Rightarrow> circuitBreakers m | Some _ \<Rightarrow> (circuitBreakers m)(k \<mapsto> k))"
  "retryPolicies (fst (initializeComponent (k, c) (m, h))) =
     (case retry c of None \<Rightarrow> retryPolicies m | Some r \<Rightarrow> (retryPolicies m)(k \<mapsto> r))"
  "timeoutManagers (fst (initializeComponent (k, c) (m, h))) =
     (case timeout c of None \<Rightarrow> timeoutManagers m | Some t \<Rightarrow> (timeoutManagers m)(k \<mapsto> t))"
  "bulkheads (fst (initializeComponent (k, c) (m, h))) =
     (case bulkhead c of None \<Rightarrow> bulkheads m | Some _ \<Rightarrow> (bulkheads m)(k \<mapsto> k))"
  by (simp_all add: initializeComponent_def Let_def split: option.splits prod.splits)

lemma initializeComponents_maps:
  assumes "distinct (map fst cfgs)"
  shows "circuitBreakers (fst (foldl (\<lambda>s entry. initializeComponent entry s) (m, h) cfgs)) svc =
           (case Option.bind (map_of cfgs svc) circuitBreaker of
              None \<Rightarrow> circuitBreakers m svc | Some _ \<Rightarrow> Some svc) \<and>
         retryPolicies (fst (foldl (\<lambda>s entry. initializeComponent entry s) (m, h) cfgs)) svc =
           (case Option.bind (map_of cfgs svc) retry of
              None \<Rightarrow> retryPolicies m svc | Some r \<Rightarrow> Some r) \<and>
         timeoutManagers (fst (foldl (\<lambda>s entry. initializeComponent entry s) (m, h) cfgs)) svc =
           (case Option.bind (map_of cfgs svc) timeout of
              None \<Rightarrow> timeoutManagers m svc | Some t \<Rightarrow> Some t) \<and>
         bulkheads (fst (foldl (\<lambda>s entry. initializeComponent entry s) (m, h) cfgs)) svc =
           (case Option.bind (map_of cfgs svc) bulkhead of
              None \<Rightarrow> bulkheads m svc | Some _ \<Rightarrow> Some svc)"
  using assms
proof (induction cfgs arbitrary: m h)
  case Nil
  then show ?case by simp
next
  case (Cons entry cfgs)
  obtain k c where entry: "entry = (k, c)" by (cases entry)
  obtain m1 h1 where step: "initializeComponent (k, c) (m, h) = (m1, h1)" by (metis surj_pair)
  from Cons.prems entry have d: "distinct (map fst cfgs)" and fresh: "k \<notin> fst ` set cfgs" by auto
  from fresh have none: "map_of cfgs k = None" by (simp add: map_of_eq_None_iff)
  from initializeComponent_maps[of k c m h] step
  have m1: "circuitBreakers m1 = (case circuitBreaker c of None \<Rightarrow> circuitBreakers m | Some _ \<Rightarrow> (circuitBreakers m)(k \<mapsto> k))"
    "retryPolicies m1 = (case retry c of None \<Rightarrow> retryPolicies m | Some r \<Rightarrow> (retryPolicies m)(k \<mapsto> r))"
    "timeoutManagers m1 = (case timeout c of None \<Rightarrow> timeoutManagers m | Some t \<Rightarrow> (timeoutManagers m)(k \<mapsto> t))"
    "bulkheads m1 = (case bulkhead c of None \<Rightarrow> bulkheads m | Some _ \<Rightarrow> (bulkheads m)(k \<mapsto> k))"
    by simp_all
  show ?case
  proof (cases "svc = k")
    case True
    with Cons.IH[OF d, of m1 h1] none entry step m1 show ?thesis
      by (simp split: option.splits)
  next
    case False
    with Cons.IH[OF d, of m1 h1] entry step m1 show ?thesis
      by (simp split: option.splits)
  qed
qed

lemma ResilienceManager_new_maps:
  assumes "distinct (map fst cfgs)"
  shows "circuitBreakers (fst (ResilienceManager_new cfgs h)) svc =
           (case Option.bind (map_of cfgs svc) circuitBreaker of None \<Rightarrow> None | Some _ \<Rightarrow> Some svc)"
    and "retryPolicies (fst (ResilienceManager_new cfgs h)) svc = Option.bind (map_of cfgs svc) retry"
    and "timeoutManagers (fst (ResilienceManager_new cfgs h)) svc = Option.bind (map_of cfgs svc) timeout"
    and "bulkheads (fst (ResilienceManager_new cfgs h)) svc =
           (case Option.bind (map_of cfgs svc) bulkhead of None \<Rightarrow> None | Some _ \<Rightarrow> Some svc)"
  unfolding ResilienceManager_new_def
  using initializeComponents_maps[OF assms, of _ h svc]
  by (simp_all split: option.splits)

subsection \<open>Claim about the composition\<close>

text \<open>
  Claim C1. For a manager built from a map of configurations (one entry a target),
  \<open>execute\<close> is the pipeline of the specification: the layers that the configuration of
  the target has, nested bulkhead, timeout, retry, circuit breaker from the outside in,
  around the operation. A target without configuration, or with none of the four
  sub-configurations, gets the bare operation and no error. With a retry policy and a
  timeout, the timer runs around the whole of \<open>RetryPolicy.execute\<close>, all attempts and
  sleeps together, and a bulkhead, if any, is around both.
\<close>

theorem ResilienceManager_execute_pipeline:
  fixes operation :: "('x, 'a) Wrapped" and hInit :: "'x Heap"
  assumes d: "distinct (map fst cfgs)"
  defines "m \<equiv> fst (ResilienceManager_new cfgs hInit)"
  shows
    "ResilienceManager_execute m svc operation h = pipeline_spec (map_of cfgs svc) svc operation h \<and>
     (map_of cfgs svc = None \<or>
      map_of cfgs svc = Some \<lparr>circuitBreaker = None, retry = None, timeout = None, bulkhead = None\<rparr> \<longrightarrow>
        ResilienceManager_execute m svc operation h = (Settled (fst (operation h)), snd (operation h))) \<and>
     (map_of cfgs svc = Some cfg \<and> retry cfg = Some r \<and> timeout cfg = Some t \<longrightarrow>
        ResilienceManager_execute m svc operation h =
          (let retried = RetryPolicy_execute r
                 (case circuitBreaker cfg of
                    None \<Rightarrow> operation
                  | Some _ \<Rightarrow> CircuitBreaker_execute svc operation);
               timed = (\<lambda>h0. let (res, h1) = retried h0
                              in (if clock h1 - clock h0 > max 0 (response t)
                                  then Inl (Error_new ''Operation timeout'') else res, h1))
           in case bulkhead cfg of
                None \<Rightarrow> (let (res, h1) = timed h in (Settled res, h1))
              | Some _ \<Rightarrow> Bulkhead_execute svc timed h))"
proof -
  note maps = ResilienceManager_new_maps[OF d, of hInit svc, folded m_def]
  have 1: "ResilienceManager_execute m svc operation h = pipeline_spec (map_of cfgs svc) svc operation h"
    unfolding ResilienceManager_execute_def pipeline_spec_def Let_def maps
    by (simp split: option.splits)
  have 2: "ResilienceManager_execute m svc operation h = (Settled (fst (operation h)), snd (operation h))"
    if "map_of cfgs svc = None \<or>
      map_of cfgs svc = Some \<lparr>circuitBreaker = None, retry = None, timeout = None, bulkhead = None\<rparr>"
    unfolding 1 pipeline_spec_def using that by (auto simp: Let_def split: prod.splits)
  have timed: "TimeoutManager_execute t w =
                 (\<lambda>h0. let (res, h1) = w h0
                        in (if clock h1 - clock h0 > max 0 (response t)
                            then Inl (Error_new ''Operation timeout'') else res, h1))"
    for w :: "('x, 'a) Wrapped"
    by (rule ext) (simp add: TimeoutManager_execute_def Let_def split: prod.splits)
  have 3: "ResilienceManager_execute m svc operation h =
          (let retried = RetryPolicy_execute r
                 (case circuitBreaker cfg of
                    None \<Rightarrow> operation
                  | Some _ \<Rightarrow> CircuitBreaker_execute svc operation);
               timed = (\<lambda>h0. let (res, h1) = retried h0
                              in (if clock h1 - clock h0 > max 0 (response t)
                                  then Inl (Error_new ''Operation timeout'') else res, h1))
           in case bulkhead cfg of
                None \<Rightarrow> (let (res, h1) = timed h in (Settled res, h1))
              | Some _ \<Rightarrow> Bulkhead_execute svc timed h)"
    if "map_of cfgs svc = Some cfg \<and> retry cfg = Some r \<and> timeout cfg = Some t"
    unfolding 1 pipeline_spec_def using that
    by (cases "circuitBreaker cfg"; cases "bulkhead cfg") (simp_all add: Let_def timed)
  show ?thesis
    by (intro conjI; (rule 1 | (rule impI, (erule 2 | erule 3))))
qed

theorem ResilienceManager_execute_pipeline_witness:
  "distinct (map fst [(''payment-api'', paymentConfig)]) \<and>
   fst (ResilienceManager_execute paymentManager ''payment-api''
          (invoke (failWith 2000 ''ECONNRESET'' :: (nat, JsError, unit) Operation)) paymentHeap) =
     Settled (Inl (Error_new ''Operation timeout'')) \<and>
   fst (ResilienceManager_execute paymentManager ''payment-api''
          (invoke (failWith 20 ''ECONNRESET'' :: (nat, JsError, unit) Operation)) paymentHeap) =
     Settled (Inl (Error_new ''ECONNRESET'')) \<and>
   ResilienceManager_execute paymentManager ''other'' (invoke (succeed 20 ())) paymentHeap =
     (Settled (fst (invoke (succeed 20 ()) paymentHeap)), snd (invoke (succeed 20 ()) paymentHeap))"
proof -
  have d: "distinct (map fst [(''payment-api'', paymentConfig)])" by simp
  note pipeline =
    ResilienceManager_execute_pipeline[OF d, where hInit = heap0 and svc = "''other''"
      and operation = "invoke (succeed 20 ())" and h = paymentHeap and cfg = paymentConfig
      and r = paymentRetry and t = "\<lparr>connection = 1000, response = 5000\<rparr>"]
  from pipeline[THEN conjunct2, THEN conjunct1]
  have "ResilienceManager_execute paymentManager ''other'' (invoke (succeed 20 ())) paymentHeap =
     (Settled (fst (invoke (succeed 20 ()) paymentHeap)), snd (invoke (succeed 20 ()) paymentHeap))"
    by (simp add: paymentManager_def)
  with d show ?thesis by (simp add: payment_slow_eval payment_fast_eval)
qed

section \<open>Bulkheads: facts and claims\<close>

text \<open>
  Admission: below \<open>maxConcurrent\<close> the operation is started at once; otherwise the caller
  is queued while the queue is shorter than \<open>maxQueue\<close>, and rejected when it is not.
\<close>

lemma Bulkhead_execute_admission:
  "running (bulkheadAt h this) < maxConcurrent (bconfig (bulkheadAt h this)) \<Longrightarrow>
     Bulkhead_execute this operation h =
       (Settled (fst (operation (Bulkhead_start this h))),
        Bulkhead_finally this (snd (operation (Bulkhead_start this h))))"
  "\<not> running (bulkheadAt h this) < maxConcurrent (bconfig (bulkheadAt h this)) \<Longrightarrow>
   int (length (queue (bulkheadAt h this))) < maxQueue (bconfig (bulkheadAt h this)) \<Longrightarrow>
     Bulkhead_execute this operation h =
       (Pending (promises h),
        h\<lparr>bulkheadAt := (bulkheadAt h)
               (this := (bulkheadAt h this)\<lparr>queue := queue (bulkheadAt h this) @ [promises h]\<rparr>),
          promises := promises h + 1\<rparr>)"
  "\<not> running (bulkheadAt h this) < maxConcurrent (bconfig (bulkheadAt h this)) \<Longrightarrow>
   \<not> int (length (queue (bulkheadAt h this))) < maxQueue (bconfig (bulkheadAt h this)) \<Longrightarrow>
     Bulkhead_execute this operation h = (Settled (Inl (Error_new ''Bulkhead queue is full'')), h)"
  by (simp_all add: Bulkhead_execute_def Bulkhead_runOperation_def Let_def split: prod.splits)

lemma Bulkhead_processQueue_runtime:
  "ext (Bulkhead_processQueue this h) = ext h \<and> clock (Bulkhead_processQueue this h) = clock h"
proof (induction "length (queue (bulkheadAt h this))" arbitrary: h)
  case 0
  then show ?case by (subst (1 2) Bulkhead_processQueue.simps) (simp add: Let_def)
next
  case (Suc n)
  show ?case
  proof (cases "running (bulkheadAt h this) < maxConcurrent (bconfig (bulkheadAt h this))")
    case False
    then show ?thesis by (subst (1 2) Bulkhead_processQueue.simps) (simp add: Let_def)
  next
    case True
    define h4 where "h4 =
      h\<lparr>bulkheadAt := (bulkheadAt h)(this := (bulkheadAt h this)\<lparr>queue := tl (queue (bulkheadAt h this))\<rparr>),
        resolvedUndefined := resolvedUndefined h @ [hd (queue (bulkheadAt h this))]\<rparr>"
    from Suc.hyps(2) have ne: "queue (bulkheadAt h this) \<noteq> []" by auto
    have step: "Bulkhead_processQueue this h = Bulkhead_processQueue this h4"
      using True ne
      by (subst Bulkhead_processQueue.simps) (simp add: Let_def Bulkhead_start_def h4_def)
    have "n = length (queue (bulkheadAt h4 this))" using Suc.hyps(2) by (simp add: h4_def)
    from Suc.hyps(1)[OF this] have "ext (Bulkhead_processQueue this h4) = ext h4 \<and>
        clock (Bulkhead_processQueue this h4) = clock h4" .
    then show ?thesis unfolding step by (simp add: h4_def)
  qed
qed

lemma Bulkhead_finally_runtime:
  "ext (Bulkhead_finally this h) = ext h" "clock (Bulkhead_finally this h) = clock h"
  by (simp_all add: Bulkhead_finally_def Bulkhead_processQueue_runtime)

text \<open>
  The bulkhead of \<open>part_000\<close> keeps the operation with the waiter: when an operation
  settles and leaves room, \<open>process\<close> takes the oldest entry and calls its own operation.
\<close>

lemma Bulkhead0_finally_hands_over:
  assumes "queue0 b = (promise, operation) # rest" "running0 b - 1 < semaphore0 b"
  shows "Bulkhead0_finally b = (Some (promise, operation), b\<lparr>running0 := running0 b, queue0 := rest\<rparr>)"
  using assms by (simp add: Bulkhead0_finally_def Bulkhead0_process_def)

lemma Bulkhead_processQueue_appends:
  "\<exists>more. resolvedUndefined (Bulkhead_processQueue this h) = resolvedUndefined h @ more"
proof (induction "length (queue (bulkheadAt h this))" arbitrary: h)
  case 0
  then show ?case by (subst Bulkhead_processQueue.simps) (simp add: Let_def)
next
  case (Suc n)
  show ?case
  proof (cases "running (bulkheadAt h this) < maxConcurrent (bconfig (bulkheadAt h this))")
    case False
    then show ?thesis by (subst Bulkhead_processQueue.simps) (simp add: Let_def)
  next
    case True
    define h4 where "h4 =
      h\<lparr>bulkheadAt := (bulkheadAt h)(this := (bulkheadAt h this)\<lparr>queue := tl (queue (bulkheadAt h this))\<rparr>),
        resolvedUndefined := resolvedUndefined h @ [hd (queue (bulkheadAt h this))]\<rparr>"
    from Suc.hyps(2) have ne: "queue (bulkheadAt h this) \<noteq> []" by auto
    have step: "Bulkhead_processQueue this h = Bulkhead_processQueue this h4"
      using True ne
      by (subst Bulkhead_processQueue.simps) (simp add: Let_def Bulkhead_start_def h4_def)
    have "n = length (queue (bulkheadAt h4 this))" using Suc.hyps(2) by (simp add: h4_def)
    from Suc.hyps(1)[OF this] obtain more where
      "resolvedUndefined (Bulkhead_processQueue this h4) = resolvedUndefined h4 @ more" by blast
    then have "resolvedUndefined (Bulkhead_processQueue this h) =
                 resolvedUndefined h @ (hd (queue (bulkheadAt h this)) # more)"
      unfolding step by (simp add: h4_def)
    then show ?thesis by blast
  qed
qed

text \<open>
  When an operation settles and leaves room, the oldest waiter is taken off the queue and
  its promise is resolved with \<open>undefined\<close>; no operation is called for it.
\<close>

lemma Bulkhead_finally_resolves_oldest:
  assumes q: "queue (bulkheadAt h this) = next # rest"
    and room: "running (bulkheadAt h this) - 1 < maxConcurrent (bconfig (bulkheadAt h this))"
  shows "\<exists>more. resolvedUndefined (Bulkhead_finally this h) = resolvedUndefined h @ next # more"
    and "ext (Bulkhead_finally this h) = ext h"
proof -
  define h1 where "h1 =
    h\<lparr>bulkheadAt := (bulkheadAt h)
          (this := (bulkheadAt h this)\<lparr>running := running (bulkheadAt h this) - 1\<rparr>)\<rparr>"
  define h4 where "h4 =
    h1\<lparr>bulkheadAt := (bulkheadAt h1)(this := (bulkheadAt h1 this)\<lparr>queue := rest\<rparr>),
       resolvedUndefined := resolvedUndefined h1 @ [next]\<rparr>"
  have "Bulkhead_finally this h = Bulkhead_processQueue this h1"
    by (simp add: Bulkhead_finally_def h1_def)
  also have "\<dots> = Bulkhead_processQueue this h4"
    using q room
    by (subst Bulkhead_processQueue.simps) (simp add: Let_def Bulkhead_start_def h1_def h4_def)
  finally have fin: "Bulkhead_finally this h = Bulkhead_processQueue this h4" .
  from Bulkhead_processQueue_appends[of this h4] obtain more where
    "resolvedUndefined (Bulkhead_processQueue this h4) = resolvedUndefined h4 @ more" by blast
  then have "resolvedUndefined (Bulkhead_finally this h) = resolvedUndefined h @ next # more"
    unfolding fin by (simp add: h4_def h1_def)
  then show "\<exists>more. resolvedUndefined (Bulkhead_finally this h) = resolvedUndefined h @ next # more"
    by blast
  show "ext (Bulkhead_finally this h) = ext h" by (rule Bulkhead_finally_runtime)
qed

subsection \<open>Claim about the bulkhead\<close>

text \<open>
  Claim C5, at the input where the code departs from it. The bulkhead of \<open>resilience.ts\<close>
  with room for two running and one waiting caller has two operations in flight. A third
  caller is queued (its operation is not called: the counter \<open>ext\<close> stays 0) and a fourth
  is rejected with \<open>Bulkhead queue is full\<close>, as the claim says. When one of the running
  operations settles, the waiter is taken off the queue, but \<open>processQueue\<close> runs
  \<open>() => Promise.resolve()\<close> in place of the waiter's operation: the waiter's promise is
  resolved with \<open>undefined\<close> and its operation is never called (\<open>ext\<close> is still 0).
\<close>

theorem Bulkhead_waiter_resolved_with_undefined:
  "fst (Bulkhead_execute ''db'' (invoke (succeed 20 ())) twoRunning) = Pending 0 \<and>
   queue (bulkheadAt oneWaiting ''db'') = [0] \<and>
   Bulkhead_execute ''db'' (invoke (succeed 20 ())) oneWaiting =
     (Settled (Inl (Error_new ''Bulkhead queue is full'')), oneWaiting) \<and>
   resolvedUndefined (Bulkhead_finally ''db'' oneWaiting) = [0] \<and>
   queue (bulkheadAt (Bulkhead_finally ''db'' oneWaiting) ''db'') = [] \<and>
   running (bulkheadAt (Bulkhead_finally ''db'' oneWaiting) ''db'') = 1 \<and>
   ext (Bulkhead_finally ''db'' oneWaiting) = 0"
  by (simp add: oneWaiting_eval)
     (simp add: bulkhead_example_defs)

end
